theory Spec2Isabelle
  imports Main "HOL-Library.Sublist"
begin

section \<open>The spec catalog and retrieval engine of mcp-openapi\<close>

text \<open>
  A shallow embedding of \<^verbatim>\<open>src/core/SpecService.ts\<close> (class
  \<^verbatim>\<open>FileSystemSpecService\<close>) and of the types of
  \<^verbatim>\<open>src/core/interfaces/ISpecService.ts\<close>.

  Conventions of the embedding:
  \<^item> a JavaScript object is the association list of its own properties in their
    \<^verbatim>\<open>for ... in\<close> enumeration order; a read \<^verbatim>\<open>obj[key]\<close> with a key given from outside
    is \<open>get_prop\<close>: the own property, or else the property that every object inherits
    from \<^verbatim>\<open>Object.prototype\<close>, or else \<^verbatim>\<open>undefined\<close>;
  \<^item> an optional property is an \<open>option\<close>; a key that is present and holds
    \<^verbatim>\<open>undefined\<close> or \<^verbatim>\<open>null\<close> is the pair of the key and \<open>None\<close>, which \<open>map_of\<close>
    reads as \<open>Some None\<close>;
  \<^item> a JavaScript number is an \<open>int\<close>, a string is a \<open>string\<close>;
  \<^item> an exception is a value of \<open>js_error\<close>, and a method that can throw returns
    \<open>js_error + 'a\<close> with \<open>Inl\<close> for the exception;
  \<^item> the fields of the service object are a record that every method takes and returns;
    the file system, the clock and the scanner are a second record, the \<open>World\<close>.
\<close>

subsection \<open>Errors\<close>

datatype error_code = INIT_ERROR | PERSIST_ERROR | LOAD_ERROR | SCAN_ERROR

text \<open>
  \<open>SpecServiceError message code cause\<close> is the class of the source.
  \<open>ErrnoException c\<close> is a Node file-system error with \<^verbatim>\<open>error.code === c\<close>;
  \<open>SyntaxError\<close> is what \<^verbatim>\<open>JSON.parse\<close> throws; \<open>TypeError\<close> is what reading a property
  of \<^verbatim>\<open>undefined\<close> or \<^verbatim>\<open>null\<close> throws; \<open>Error m\<close> is \<^verbatim>\<open>new Error(m)\<close>.
\<close>

datatype js_error =
    ErrnoException string
  | SyntaxError
  | TypeError
  | Error string
  | SpecServiceError string error_code "js_error option"

fun code :: "js_error \<Rightarrow> error_code option" where
  "code (SpecServiceError m c cause) = Some c"
| "code e = None"

fun cause :: "js_error \<Rightarrow> js_error option" where
  "cause (SpecServiceError m c cs) = cs"
| "cause e = None"

text \<open>\<^verbatim>\<open>(error as NodeJS.ErrnoException).code === "ENOENT"\<close>\<close>

fun is_ENOENT :: "js_error \<Rightarrow> bool" where
  "is_ENOENT (ErrnoException c) = (c = ''ENOENT'')"
| "is_ENOENT e = False"

subsection \<open>JavaScript helpers\<close>

text \<open>\<^verbatim>\<open>x || d\<close> on an optional number: \<^verbatim>\<open>undefined\<close> and \<^verbatim>\<open>0\<close> are falsy.\<close>

fun or_number :: "int option \<Rightarrow> int \<Rightarrow> int" where
  "or_number None d = d"
| "or_number (Some n) d = (if n = 0 then d else n)"

text \<open>\<^verbatim>\<open>x || d\<close> on an optional string: \<^verbatim>\<open>undefined\<close> and \<^verbatim>\<open>""\<close> are falsy.\<close>

fun or_string :: "string option \<Rightarrow> string \<Rightarrow> string" where
  "or_string None d = d"
| "or_string (Some s) d = (if s = [] then d else s)"

text \<open>A template literal \<^verbatim>\<open>`${x}`\<close> of an optional string.\<close>

fun template :: "string option \<Rightarrow> string" where
  "template None = ''undefined''"
| "template (Some s) = s"

text \<open>
  The names of the properties of \<^verbatim>\<open>Object.prototype\<close>: every plain object (an object
  literal, an object that \<^verbatim>\<open>JSON.parse\<close> made) has them without owning them. None of
  them is enumerable, so a \<^verbatim>\<open>for ... in\<close> loop does not see them.
\<close>

definition inherited_key :: "string \<Rightarrow> bool" where
  "inherited_key k =
     (k \<in> set [''constructor'', ''__proto__'', ''hasOwnProperty'', ''isPrototypeOf'',
                ''propertyIsEnumerable'', ''toLocaleString'', ''toString'', ''valueOf'',
                ''__defineGetter__'', ''__defineSetter__'', ''__lookupGetter__'',
                ''__lookupSetter__''])"

text \<open>
  What \<^verbatim>\<open>obj[key]\<close> gives on a plain object with the own properties \<open>own\<close>: an own
  property, the value inherited under the key (a function of \<^verbatim>\<open>Object.prototype\<close>, or
  \<^verbatim>\<open>Object.prototype\<close> itself under \<^verbatim>\<open>__proto__\<close>; all of them are truthy), or
  \<^verbatim>\<open>undefined\<close>.
\<close>

datatype 'a read = Own 'a | Inherited string | Undefined

definition get_prop :: "(string \<rightharpoonup> 'a) \<Rightarrow> string \<Rightarrow> 'a read" where
  "get_prop own k =
     (case own k of
        Some v \<Rightarrow> Own v
      | None \<Rightarrow> if inherited_key k then Inherited k else Undefined)"

text \<open>
  Reading a property of an inherited value depends on the JavaScript runtime (the
  functions of \<^verbatim>\<open>Object.prototype\<close> have properties such as \<^verbatim>\<open>name\<close>, \<^verbatim>\<open>call\<close> or, on
  \<^verbatim>\<open>Object\<close>, \<^verbatim>\<open>keys\<close>, and an accessor may throw). A \<open>runtime\<close> says, for the value
  inherited under \<open>k\<close> and a property name \<open>m\<close>, whether the read gives a truthy value, a
  falsy one, or throws a \<^verbatim>\<open>TypeError\<close>. No such value has any of the properties
  \<^verbatim>\<open>paths\<close>, \<^verbatim>\<open>components\<close>, \<^verbatim>\<open>operationId\<close> or \<^verbatim>\<open>description\<close>: these read as
  \<^verbatim>\<open>undefined\<close>.
\<close>

datatype builtin_read = Truthy | Falsy | Throws

type_synonym runtime = "string \<Rightarrow> string \<Rightarrow> builtin_read"

text \<open>
  \<^verbatim>\<open>path.join(a, b)\<close>. Node also normalises the result; the engine only uses the
  result as the name of a directory or a file, so the normalisation is left out.
\<close>

definition path_join :: "string \<Rightarrow> string \<Rightarrow> string" where
  "path_join a b = a @ ''/'' @ b"

text \<open>
  \<^verbatim>\<open>String.prototype.toLowerCase\<close>, on the ASCII letters: a \<open>char\<close> is a byte, and
  bytes outside \<open>A\<close>..\<open>Z\<close> are left as they are.
\<close>

definition lower_char :: "char \<Rightarrow> char" where
  "lower_char c =
     (case map_of (zip ''ABCDEFGHIJKLMNOPQRSTUVWXYZ'' ''abcdefghijklmnopqrstuvwxyz'') c of
        None \<Rightarrow> c
      | Some l \<Rightarrow> l)"

definition toLowerCase :: "string \<Rightarrow> string" where
  "toLowerCase s = map lower_char s"

text \<open>\<^verbatim>\<open>s.includes(q)\<close>: \<open>q\<close> occurs in \<open>s\<close> as a contiguous substring.\<close>

fun starts_with :: "string \<Rightarrow> string \<Rightarrow> bool" where
  "starts_with s [] = True"
| "starts_with [] (c # q) = False"
| "starts_with (d # s) (c # q) = (d = c \<and> starts_with s q)"

fun str_includes :: "string \<Rightarrow> string \<Rightarrow> bool" where
  "str_includes [] q = (q = [])"
| "str_includes (d # s) q = (starts_with (d # s) q \<or> str_includes s q)"

text \<open>\<^verbatim>\<open>parts.join(" ")\<close>\<close>

fun join_space :: "string list \<Rightarrow> string" where
  "join_space [] = []"
| "join_space [s] = s"
| "join_space (s # t # ss) = s @ '' '' @ join_space (t # ss)"

subsection \<open>Configuration and constructor\<close>

text \<open>\<^verbatim>\<open>SpecServiceConfig\<close>: every property but \<^verbatim>\<open>basePath\<close> is optional.\<close>

record CacheOptions =
  maxSize :: "int option"
  ttl :: "int option"

record SpecServiceConfig =
  basePath :: string
  catalogDir :: "string option"
  dereferencedDir :: "string option"
  retryAttempts :: "int option"
  retryDelay :: "int option"
  cache :: "CacheOptions option"

text \<open>\<^verbatim>\<open>Required<SpecServiceConfig>\<close>, the type of \<^verbatim>\<open>this.config\<close>.\<close>

record RequiredConfig =
  req_basePath :: string
  req_catalogDir :: string
  req_dereferencedDir :: string
  req_retryAttempts :: int
  req_retryDelay :: int
  req_cache_maxSize :: int
  req_cache_ttl :: int

subsection \<open>Documents\<close>

text \<open>
  The parts of \<^verbatim>\<open>OpenAPIV3.Document\<close> (package openapi-types) that the engine reads;
  \<^verbatim>\<open>info\<close> and \<^verbatim>\<open>paths\<close> are required properties of that type, \<^verbatim>\<open>components\<close> and
  its \<^verbatim>\<open>schemas\<close> are optional.
  A path item is the association list of its keys: the HTTP methods, and also
  \<^verbatim>\<open>parameters\<close>, \<^verbatim>\<open>$ref\<close>, \<^verbatim>\<open>summary\<close> and the like. The source reads every value
  through the cast \<^verbatim>\<open>pathItem[method] as OpenAPIV3.OperationObject\<close>, so a value is an
  \<open>OperationObject\<close> here too: a value that is no operation (the array under
  \<^verbatim>\<open>parameters\<close>, the string under \<^verbatim>\<open>$ref\<close>) has none of the four properties, all
  four read as \<open>None\<close>. The types declare the properties of a path item and the path
  items of \<^verbatim>\<open>paths\<close> as possibly \<^verbatim>\<open>undefined\<close>, and a key that a YAML file leaves
  empty parses to \<^verbatim>\<open>null\<close>; the engine treats both alike, and such a value is \<open>None\<close>.
\<close>

record OperationObject =
  operationId :: "string option"
  summary :: "string option"
  description :: "string option"
  tags :: "string list option"

type_synonym PathItemObject = "(string \<times> OperationObject option) list"

type_synonym PathsObject = "(string \<times> PathItemObject option) list"

record SchemaObject =
  schema_description :: "string option"

record ComponentsObject =
  schemas :: "(string \<times> SchemaObject) list option"

record InfoObject =
  info_description :: "string option"

record Document =
  info :: InfoObject
  paths :: PathsObject
  components :: "ComponentsObject option"

subsection \<open>Catalog\<close>

datatype uri_type = Operation | Schema | Specification

record SpecUri =
  specId :: string
  type :: uri_type
  uri_identifier :: string

record SpecOperationEntry =
  op_path :: string
  op_method :: string
  op_title :: "string option"
  op_description :: "string option"
  op_group :: "string option"
  op_operationId :: "string option"

record SpecSchemaEntry =
  name :: string
  se_description :: "string option"

record SpecCatalogEntry =
  uri :: SpecUri
  cat_description :: "string option"
  operations :: "SpecOperationEntry list"
  cat_schemas :: "SpecSchemaEntry list"

record LoadSchemaResult =
  ls_name :: string
  ls_description :: "string option"
  ls_schema :: SchemaObject
  ls_uri :: string

record LoadOperationResult =
  lo_path :: string
  lo_method :: string
  lo_operation :: OperationObject
  lo_specId :: string
  lo_uri :: string

subsection \<open>The bounded TTL cache\<close>

text \<open>
  Modelled from the spec: the class \<^verbatim>\<open>SimpleCache\<close> of \<^verbatim>\<open>src/core/Cache.ts\<close> is
  imported by the service and is not among the sources. Section 4.1 of the
  specification gives its contract: \<^verbatim>\<open>get(key)\<close>, \<^verbatim>\<open>set(key, value)\<close>, \<^verbatim>\<open>clear()\<close>;
  when inserting would exceed the capacity \<^verbatim>\<open>maxSize\<close>, the least-recently-inserted
  entry is evicted; an entry is absent once \<^verbatim>\<open>now - insertedAt > ttl\<close>, and \<^verbatim>\<open>get\<close>
  treats an expired entry as a miss and may purge it.

  The entries are kept in insertion order, oldest first, each with the time of its
  insertion. Setting a key that is there replaces its entry.
\<close>

record ('k, 'v) SimpleCache =
  cache_maxSize :: int
  cache_ttl :: int
  entries :: "('k \<times> 'v \<times> int) list"

definition new_cache :: "int \<Rightarrow> int \<Rightarrow> ('k, 'v) SimpleCache" where
  "new_cache m t = \<lparr>cache_maxSize = m, cache_ttl = t, entries = []\<rparr>"

definition cache_get :: "('k, 'v) SimpleCache \<Rightarrow> int \<Rightarrow> 'k \<Rightarrow> 'v option \<times> ('k, 'v) SimpleCache" where
  "cache_get c now k =
     (case map_of (entries c) k of
        None \<Rightarrow> (None, c)
      | Some (v, insertedAt) \<Rightarrow>
          if now - insertedAt > cache_ttl c
          then (None, c\<lparr>entries := filter (\<lambda>e. fst e \<noteq> k) (entries c)\<rparr>)
          else (Some v, c))"

definition cache_set :: "('k, 'v) SimpleCache \<Rightarrow> int \<Rightarrow> 'k \<Rightarrow> 'v \<Rightarrow> ('k, 'v) SimpleCache" where
  "cache_set c now k v =
     (let others = filter (\<lambda>e. fst e \<noteq> k) (entries c);
          kept = (if int (length others) + 1 > cache_maxSize c then tl others else others)
      in c\<lparr>entries := kept @ [(k, v, now)]\<rparr>)"

definition cache_clear :: "('k, 'v) SimpleCache \<Rightarrow> ('k, 'v) SimpleCache" where
  "cache_clear c = c\<lparr>entries := []\<rparr>"

subsection \<open>The world outside the service\<close>

text \<open>
  \<open>ScanResult\<close> is what \<^verbatim>\<open>this.scanner.scan(folderPath)\<close> yields; the source
  destructures \<^verbatim>\<open>{ filename, spec, specId, error }\<close>. The scanner
  (\<^verbatim>\<open>ISpecScanner\<close>) is a collaborator outside the sources.
\<close>

record ScanResult =
  filename :: string
  spec :: Document
  scan_specId :: string
  error :: "js_error option"

text \<open>
  What a file holds: a value that \<^verbatim>\<open>JSON.parse(await fs.readFile(...))\<close> returns, or
  a file (or a text) on which that expression throws the given error. A file that
  is not there throws \<open>ErrnoException ''ENOENT''\<close>. \<^verbatim>\<open>JSON.stringify\<close> followed by
  \<^verbatim>\<open>JSON.parse\<close> is taken to give the value back.
\<close>

datatype 'a stored = Parsed 'a | Unreadable js_error

text \<open>
  An operation that was started under a \<^verbatim>\<open>Promise.all\<close> which has rejected since, and
  that will still succeed: a \<^verbatim>\<open>saveSpec\<close> whose file is being written, or a
  \<^verbatim>\<open>loadSpec\<close> whose file is being read. When it settles it runs the rest of its body:
  the save sets \<^verbatim>\<open>this.specs[specId]\<close> and the cache, the load sets the cache.
\<close>

datatype landing = SaveLanding string Document | LoadLanding string Document

text \<open>
  The world: the clock (\<^verbatim>\<open>Date.now()\<close>, in milliseconds), the file system and the
  scanner. \<open>mkdir_error d\<close> is the error of \<^verbatim>\<open>fs.mkdir(d, {recursive: true})\<close>, if it
  fails; \<open>write_error p\<close> the error of \<^verbatim>\<open>fs.writeFile(p, ...)\<close>, if it fails;
  \<open>read_log\<close> lists the files that \<^verbatim>\<open>fs.readFile\<close> was called on, latest first.
  \<open>scan d\<close> is the finite sequence that the scanner yields for \<open>d\<close>, and the error it
  throws after the last one, if it throws.

  Operations that are started together under \<^verbatim>\<open>Promise.all\<close> settle in an order that
  the file system decides: \<open>save_rank i\<close> and \<open>load_rank i\<close> rank the \<open>i\<close>-th save and
  the \<open>i\<close>-th load of such a batch, a lower rank settles first and equal ranks settle
  in the order of the batch. \<open>in_flight\<close> are the operations of rejected batches that
  have not settled yet, in the order in which they will.
\<close>

record World =
  clock :: int
  mkdir_error :: "string \<Rightarrow> js_error option"
  write_error :: "string \<Rightarrow> js_error option"
  spec_files :: "string \<rightharpoonup> Document stored"
  catalog_files :: "string \<rightharpoonup> SpecCatalogEntry list stored"
  read_log :: "string list"
  scan :: "string \<Rightarrow> ScanResult list \<times> js_error option"
  save_rank :: "nat \<Rightarrow> nat"
  load_rank :: "nat \<Rightarrow> nat"
  in_flight :: "landing list"

subsection \<open>The service object\<close>

text \<open>
  \<open>specs\<close> holds the own properties of the object \<^verbatim>\<open>this.specs\<close>, \<open>catalog\<close> the array
  \<^verbatim>\<open>this.catalog\<close>. The id \<^verbatim>\<open>__proto__\<close> is kept as a key like any other: the
  assignment \<^verbatim>\<open>this.specs["__proto__"] = spec\<close> makes \<open>spec\<close> the prototype of the object
  instead of an own property, and a read under that id gives \<open>spec\<close> all the same; what
  the object then inherits from \<open>spec\<close> under other names is not modelled.
\<close>

record FileSystemSpecService =
  config :: RequiredConfig
  folderPath :: string
  catalogPath :: string
  dereferencedPath :: string
  specCache :: "(string, Document) SimpleCache"
  specs :: "string \<rightharpoonup> Document"
  catalog :: "SpecCatalogEntry list"

text \<open>
  The constructor. \<^verbatim>\<open>config.cache?.maxSize\<close> is \<^verbatim>\<open>undefined\<close> when \<^verbatim>\<open>config.cache\<close>
  is.
\<close>

definition required_config :: "SpecServiceConfig \<Rightarrow> RequiredConfig" where
  "required_config cfg =
     \<lparr>req_basePath = basePath cfg,
      req_catalogDir = or_string (catalogDir cfg) ''_catalog'',
      req_dereferencedDir = or_string (dereferencedDir cfg) ''_dereferenced'',
      req_retryAttempts = or_number (retryAttempts cfg) 3,
      req_retryDelay = or_number (retryDelay cfg) 1000,
      req_cache_maxSize = or_number (Option.bind (cache cfg) maxSize) 500,
      req_cache_ttl = or_number (Option.bind (cache cfg) ttl) (60 * 60 * 1000)\<rparr>"

definition constructor :: "SpecServiceConfig \<Rightarrow> FileSystemSpecService" where
  "constructor cfg =
     (let c = required_config cfg in
      \<lparr>config = c,
       folderPath = req_basePath c,
       catalogPath = path_join (req_basePath c) (req_catalogDir c),
       dereferencedPath = path_join (req_basePath c) (req_dereferencedDir c),
       specCache = new_cache (req_cache_maxSize c) (req_cache_ttl c),
       specs = Map.empty,
       catalog = []\<rparr>)"

subsection \<open>Directories and state reset\<close>

definition ensureDirectory :: "World \<Rightarrow> string \<Rightarrow> js_error + unit" where
  "ensureDirectory w dir =
     (case mkdir_error w dir of
        None \<Rightarrow> Inr ()
      | Some e \<Rightarrow> Inl (SpecServiceError (''Failed to create directory '' @ dir) INIT_ERROR (Some e)))"

text \<open>
  \<^verbatim>\<open>Promise.all\<close> over the three directories: it rejects with the error of a directory
  that fails; the model takes the first one in the order of the array.
\<close>

definition ensureDirectories :: "FileSystemSpecService \<Rightarrow> World \<Rightarrow> js_error + unit" where
  "ensureDirectories s w =
     (case ensureDirectory w (folderPath s) of
        Inl e \<Rightarrow> Inl e
      | Inr u \<Rightarrow>
         (case ensureDirectory w (catalogPath s) of
            Inl e \<Rightarrow> Inl e
          | Inr u \<Rightarrow> ensureDirectory w (dereferencedPath s)))"

definition resetState :: "FileSystemSpecService \<Rightarrow> FileSystemSpecService" where
  "resetState s = s\<lparr>catalog := [], specs := Map.empty, specCache := cache_clear (specCache s)\<rparr>"

subsection \<open>Storage\<close>

definition spec_file :: "FileSystemSpecService \<Rightarrow> string \<Rightarrow> string" where
  "spec_file s sid = path_join (dereferencedPath s) (sid @ ''.json'')"

definition catalog_file :: "FileSystemSpecService \<Rightarrow> string" where
  "catalog_file s = path_join (catalogPath s) ''catalog.json''"

definition saveSpec ::
  "Document \<Rightarrow> string \<Rightarrow> FileSystemSpecService \<Rightarrow> World \<Rightarrow>
     (js_error + unit) \<times> FileSystemSpecService \<times> World" where
  "saveSpec d sid s w =
     (case ensureDirectory w (dereferencedPath s) of
        Inl e \<Rightarrow>
          (Inl (SpecServiceError (''Failed to persist specification '' @ sid) PERSIST_ERROR (Some e)), s, w)
      | Inr u \<Rightarrow>
         (case write_error w (spec_file s sid) of
            Some e \<Rightarrow>
              (Inl (SpecServiceError (''Failed to persist specification '' @ sid) PERSIST_ERROR (Some e)), s, w)
          | None \<Rightarrow>
              (Inr (),
               s\<lparr>specs := (specs s)(sid \<mapsto> d),
                 specCache := cache_set (specCache s) (clock w) sid d\<rparr>,
               w\<lparr>spec_files := (spec_files w)(spec_file s sid \<mapsto> Parsed d)\<rparr>)))"

definition saveSpecCatalog ::
  "SpecCatalogEntry list \<Rightarrow> FileSystemSpecService \<Rightarrow> World \<Rightarrow> (js_error + unit) \<times> World" where
  "saveSpecCatalog c s w =
     (if catalogPath s = [] then (Inl (Error ''FileSystemSpecService not initialized''), w)
      else
        (case write_error w (catalog_file s) of
           Some e \<Rightarrow> (Inl e, w)
         | None \<Rightarrow> (Inr (), w\<lparr>catalog_files := (catalog_files w)(catalog_file s \<mapsto> Parsed c)\<rparr>)))"

definition loadSpecCatalog ::
  "FileSystemSpecService \<Rightarrow> World \<Rightarrow> (js_error + SpecCatalogEntry list) \<times> World" where
  "loadSpecCatalog s w =
     (let w' = w\<lparr>read_log := catalog_file s # read_log w\<rparr> in
      case catalog_files w (catalog_file s) of
        None \<Rightarrow> (Inr [], w')
      | Some (Parsed c) \<Rightarrow> (Inr c, w')
      | Some (Unreadable e) \<Rightarrow> if is_ENOENT e then (Inr [], w') else (Inl e, w'))"

definition loadSpec ::
  "string \<Rightarrow> FileSystemSpecService \<Rightarrow> World \<Rightarrow>
     (js_error + Document) \<times> FileSystemSpecService \<times> World" where
  "loadSpec sid s w =
     (case cache_get (specCache s) (clock w) sid of
        (Some cached, c) \<Rightarrow> (Inr cached, s\<lparr>specCache := c\<rparr>, w)
      | (None, c) \<Rightarrow>
         (let w' = w\<lparr>read_log := spec_file s sid # read_log w\<rparr>;
              not_found = SpecServiceError (''Specification not found: '' @ sid) LOAD_ERROR None
          in case spec_files w (spec_file s sid) of
               None \<Rightarrow> (Inl not_found, s\<lparr>specCache := c\<rparr>, w')
             | Some (Parsed d) \<Rightarrow>
                 (Inr d, s\<lparr>specCache := cache_set c (clock w) sid d\<rparr>, w')
             | Some (Unreadable e) \<Rightarrow>
                 (if is_ENOENT e then (Inl not_found, s\<lparr>specCache := c\<rparr>, w')
                  else (Inl (SpecServiceError (''Failed to load specification '' @ sid) LOAD_ERROR (Some e)),
                        s\<lparr>specCache := c\<rparr>, w'))))"

definition getApiCatalog :: "FileSystemSpecService \<Rightarrow> SpecCatalogEntry list" where
  "getApiCatalog s = catalog s"

subsection \<open>The catalog builder\<close>

text \<open>
  \<^verbatim>\<open>method === "parameters" || method === "$ref"\<close>: the keys of a path item that the
  builder and the operation search skip.
\<close>

definition structural_key :: "string \<Rightarrow> bool" where
  "structural_key m = (m = ''parameters'' \<or> m = ''$ref'')"

text \<open>\<^verbatim>\<open>operation.tags?.[0]\<close>\<close>

fun first_tag :: "string list option \<Rightarrow> string option" where
  "first_tag None = None"
| "first_tag (Some []) = None"
| "first_tag (Some (t # ts)) = Some t"

text \<open>
  The inner loop of the extraction, over the keys of one path item, pushing to
  \<open>ops\<close>. Reading \<^verbatim>\<open>operation.summary\<close> of a value that is \<^verbatim>\<open>undefined\<close> throws.
\<close>

fun extract_methods ::
  "string \<Rightarrow> PathItemObject \<Rightarrow> SpecOperationEntry list \<Rightarrow> js_error + SpecOperationEntry list" where
  "extract_methods p [] ops = Inr ops"
| "extract_methods p ((m, v) # rest) ops =
     (if structural_key m then extract_methods p rest ops
      else
        (case v of
           None \<Rightarrow> Inl TypeError
         | Some operation \<Rightarrow>
             extract_methods p rest
               (ops @ [\<lparr>op_path = p, op_method = m, op_title = summary operation,
                        op_description = description operation,
                        op_group = first_tag (tags operation),
                        op_operationId = operationId operation\<rparr>])))"

text \<open>The outer loop, over the paths; \<^verbatim>\<open>for ... in\<close> over \<^verbatim>\<open>undefined\<close> has no iteration.\<close>

fun extract_paths ::
  "PathsObject \<Rightarrow> SpecOperationEntry list \<Rightarrow> js_error + SpecOperationEntry list" where
  "extract_paths [] ops = Inr ops"
| "extract_paths ((p, item) # rest) ops =
     (case item of
        None \<Rightarrow> extract_paths rest ops
      | Some pathItem \<Rightarrow>
         (case extract_methods p pathItem ops of
            Inl e \<Rightarrow> Inl e
          | Inr ops' \<Rightarrow> extract_paths rest ops'))"

definition extract_schemas :: "Document \<Rightarrow> SpecSchemaEntry list" where
  "extract_schemas d =
     (case Option.bind (components d) schemas of
        None \<Rightarrow> []
      | Some ss \<Rightarrow> map (\<lambda>(n, sc). \<lparr>name = n, se_description = schema_description sc\<rparr>) ss)"

text \<open>The body of the inner \<^verbatim>\<open>try\<close>: the catalog entry of one scanned document.\<close>

definition make_entry :: "Document \<Rightarrow> string \<Rightarrow> js_error + SpecCatalogEntry" where
  "make_entry d sid =
     (case extract_paths (paths d) [] of
        Inl e \<Rightarrow> Inl e
      | Inr ops \<Rightarrow>
          Inr \<lparr>uri = \<lparr>specId = sid, type = Specification, uri_identifier = sid\<rparr>,
               cat_description = info_description (info d),
               operations = ops,
               cat_schemas = extract_schemas d\<rparr>)"

text \<open>
  The \<^verbatim>\<open>for await\<close> loop: a result with \<^verbatim>\<open>error\<close> set is skipped, a document whose
  extraction throws is skipped, every other one is pushed to \<open>pendingOperations\<close>.
\<close>

fun scan_loop ::
  "ScanResult list \<Rightarrow> (Document \<times> SpecCatalogEntry) list \<Rightarrow> (Document \<times> SpecCatalogEntry) list" where
  "scan_loop [] pending = pending"
| "scan_loop (r # rs) pending =
     (case error r of
        Some e \<Rightarrow> scan_loop rs pending
      | None \<Rightarrow>
         (case make_entry (spec r) (scan_specId r) of
            Inl e \<Rightarrow> scan_loop rs pending
          | Inr entry \<Rightarrow> scan_loop rs (pending @ [(spec r, entry)])))"

text \<open>
  The order in which the operations of a batch settle: by rank, and by position in the
  batch among equal ranks (\<open>sort_key\<close> is stable).
\<close>

definition settle_order :: "(nat \<Rightarrow> nat) \<Rightarrow> 'a list \<Rightarrow> 'a list" where
  "settle_order rank xs = map snd (sort_key (\<lambda>(i, x). rank i) (enumerate 0 xs))"

text \<open>Whether a \<^verbatim>\<open>saveSpec\<close> of the id will succeed: the directory and the file can be written.\<close>

definition save_succeeds :: "FileSystemSpecService \<Rightarrow> World \<Rightarrow> string \<Rightarrow> bool" where
  "save_succeeds s w sid =
     (mkdir_error w (dereferencedPath s) = None \<and> write_error w (spec_file s sid) = None)"

text \<open>
  \<^verbatim>\<open>Promise.all(pendingOperations.map(async ...))\<close>: \<^verbatim>\<open>map\<close> starts every \<^verbatim>\<open>saveSpec\<close>,
  and each runs up to its first \<^verbatim>\<open>await\<close>; then they settle one by one. \<open>run_saves\<close>
  takes them in the order in which they settle. A save that succeeds sets
  \<^verbatim>\<open>this.specs\<close> and the cache, and its entry is pushed to \<open>tempCatalog\<close>. At the first
  save that fails, \<^verbatim>\<open>Promise.all\<close> rejects with its error and the \<^verbatim>\<open>catch\<close> blocks run
  at once; the saves that have not settled by then are not cancelled: those that will
  succeed are in flight from then on.
\<close>

fun run_saves ::
  "(Document \<times> SpecCatalogEntry) list \<Rightarrow> SpecCatalogEntry list \<Rightarrow> FileSystemSpecService \<Rightarrow> World \<Rightarrow>
     js_error option \<times> SpecCatalogEntry list \<times> FileSystemSpecService \<times> World" where
  "run_saves [] tempCatalog s w = (None, tempCatalog, s, w)"
| "run_saves ((d, entry) # rest) tempCatalog s w =
     (case saveSpec d (specId (uri entry)) s w of
        (Inl e, s', w') \<Rightarrow>
          (Some e, tempCatalog, s',
           w'\<lparr>in_flight := in_flight w' @
                [SaveLanding (specId (uri entry')) d'.
                   (d', entry') \<leftarrow> rest, save_succeeds s' w' (specId (uri entry'))]\<rparr>)
      | (Inr u, s', w') \<Rightarrow> run_saves rest (tempCatalog @ [entry]) s' w')"

definition save_all ::
  "(Document \<times> SpecCatalogEntry) list \<Rightarrow> SpecCatalogEntry list \<Rightarrow> FileSystemSpecService \<Rightarrow> World \<Rightarrow>
     js_error option \<times> SpecCatalogEntry list \<times> FileSystemSpecService \<times> World" where
  "save_all pendingOperations tempCatalog s w =
     run_saves (settle_order (save_rank w) pendingOperations) tempCatalog s w"

definition scan_error :: "js_error \<Rightarrow> js_error" where
  "scan_error e = SpecServiceError ''Failed to scan and persist specifications'' SCAN_ERROR (Some e)"

definition scanAndSave ::
  "string \<Rightarrow> FileSystemSpecService \<Rightarrow> World \<Rightarrow> (js_error + unit) \<times> FileSystemSpecService \<times> World" where
  "scanAndSave dir s w =
     (case scan w dir of
        (results, Some e) \<Rightarrow> (Inl (scan_error e), s, w)
      | (results, None) \<Rightarrow>
         (let pendingOperations = scan_loop results [] in
          case ensureDirectories s w of
            Inl e \<Rightarrow> (Inl (scan_error e), s, w)
          | Inr u \<Rightarrow>
             (case save_all pendingOperations [] s w of
                (Some e, tempCatalog, s', w') \<Rightarrow> (Inl (scan_error e), s', w')
              | (None, tempCatalog, s', w') \<Rightarrow>
                 (case saveSpecCatalog tempCatalog s' w' of
                    (Inl e, w'') \<Rightarrow> (Inl (scan_error e), s', w'')
                  | (Inr u, w'') \<Rightarrow> (Inr (), s'\<lparr>catalog := tempCatalog\<rparr>, w'')))))"

subsection \<open>Lifecycle\<close>

text \<open>
  \<^verbatim>\<open>Promise.all(this.catalog.map((spec) => this.loadSpec(spec.uri.specId)))\<close>. \<^verbatim>\<open>map\<close>
  starts every \<^verbatim>\<open>loadSpec\<close> in catalog order, and each runs up to its first \<^verbatim>\<open>await\<close>:
  it looks into the cache and returns on a hit, or calls \<^verbatim>\<open>fs.readFile\<close>. What the
  read will give is what the file holds then.
\<close>

datatype load_outcome = Cached Document | Fetched Document | Failing js_error

text \<open>
  The outcome of \<^verbatim>\<open>fs.readFile\<close> and \<^verbatim>\<open>JSON.parse\<close> in \<^verbatim>\<open>loadSpec\<close>, with the errors that
  its \<^verbatim>\<open>catch\<close> makes of theirs.
\<close>

definition read_file :: "FileSystemSpecService \<Rightarrow> World \<Rightarrow> string \<Rightarrow> load_outcome" where
  "read_file s w sid =
     (let not_found = SpecServiceError (''Specification not found: '' @ sid) LOAD_ERROR None
      in case spec_files w (spec_file s sid) of
           None \<Rightarrow> Failing not_found
         | Some (Parsed d) \<Rightarrow> Fetched d
         | Some (Unreadable e) \<Rightarrow>
             if is_ENOENT e then Failing not_found
             else Failing (SpecServiceError (''Failed to load specification '' @ sid)
                             LOAD_ERROR (Some e)))"

fun start_loads ::
  "string list \<Rightarrow> FileSystemSpecService \<Rightarrow> World \<Rightarrow>
     (string \<times> load_outcome) list \<times> FileSystemSpecService \<times> World" where
  "start_loads [] s w = ([], s, w)"
| "start_loads (sid # sids) s w =
     (case cache_get (specCache s) (clock w) sid of
        (Some cached, c) \<Rightarrow>
          (case start_loads sids (s\<lparr>specCache := c\<rparr>) w of
             (loads, s', w') \<Rightarrow> ((sid, Cached cached) # loads, s', w'))
      | (None, c) \<Rightarrow>
          (case start_loads sids (s\<lparr>specCache := c\<rparr>)
                  (w\<lparr>read_log := spec_file s sid # read_log w\<rparr>) of
             (loads, s', w') \<Rightarrow> ((sid, read_file s w sid) # loads, s', w')))"

text \<open>
  Then the reads settle one by one; \<open>finish_loads\<close> takes the loads in the order in
  which they settle (a load that hit the cache has nothing left to do). A read that
  succeeds puts the document into the cache. At the first one that fails,
  \<^verbatim>\<open>Promise.all\<close> rejects with its error; the reads that have not settled by then and
  will succeed are in flight from then on.
\<close>

fun finish_loads ::
  "(string \<times> load_outcome) list \<Rightarrow> FileSystemSpecService \<Rightarrow> World \<Rightarrow>
     js_error option \<times> FileSystemSpecService \<times> World" where
  "finish_loads [] s w = (None, s, w)"
| "finish_loads ((sid, Cached d) # rest) s w = finish_loads rest s w"
| "finish_loads ((sid, Fetched d) # rest) s w =
     finish_loads rest (s\<lparr>specCache := cache_set (specCache s) (clock w) sid d\<rparr>) w"
| "finish_loads ((sid, Failing e) # rest) s w =
     (Some e, s,
      w\<lparr>in_flight := in_flight w @
           concat (map (\<lambda>(sid', outcome). case outcome of Fetched d' \<Rightarrow> [LoadLanding sid' d'] | _ \<Rightarrow> []) rest)\<rparr>)"

text \<open>The value of a load that did not fail; \<^verbatim>\<open>Promise.all\<close> keeps the order of its input.\<close>

fun loaded_documents :: "(string \<times> load_outcome) list \<Rightarrow> Document list" where
  "loaded_documents [] = []"
| "loaded_documents ((sid, Cached d) # rest) = d # loaded_documents rest"
| "loaded_documents ((sid, Fetched d) # rest) = d # loaded_documents rest"
| "loaded_documents ((sid, Failing e) # rest) = loaded_documents rest"

definition load_all ::
  "string list \<Rightarrow> FileSystemSpecService \<Rightarrow> World \<Rightarrow>
     (js_error + Document list) \<times> FileSystemSpecService \<times> World" where
  "load_all sids s w =
     (case start_loads sids s w of
        (loads, s1, w1) \<Rightarrow>
          (case finish_loads (settle_order (load_rank w1) loads) s1 w1 of
             (Some e, s2, w2) \<Rightarrow> (Inl e, s2, w2)
           | (None, s2, w2) \<Rightarrow> (Inr (loaded_documents loads), s2, w2)))"

text \<open>The \<^verbatim>\<open>forEach\<close> of \<^verbatim>\<open>loadExistingCatalog\<close>.\<close>

fun store_loaded ::
  "(string \<times> Document) list \<Rightarrow> int \<Rightarrow> FileSystemSpecService \<Rightarrow> FileSystemSpecService" where
  "store_loaded [] now s = s"
| "store_loaded ((sid, d) # rest) now s =
     store_loaded rest now
       (s\<lparr>specs := (specs s)(sid \<mapsto> d), specCache := cache_set (specCache s) now sid d\<rparr>)"

definition loadExistingCatalog ::
  "FileSystemSpecService \<Rightarrow> World \<Rightarrow> bool \<times> FileSystemSpecService \<times> World" where
  "loadExistingCatalog s w =
     (case loadSpecCatalog s w of
        (Inl e, w') \<Rightarrow> (False, resetState s, w')
      | (Inr c, w') \<Rightarrow>
         (let s1 = s\<lparr>catalog := c\<rparr>;
              sids = map (\<lambda>entry. specId (uri entry)) c
          in case load_all sids s1 w' of
               (Inl e, s2, w'') \<Rightarrow> (False, resetState s2, w'')
             | (Inr ds, s2, w'') \<Rightarrow> (True, store_loaded (zip sids ds) (clock w'') s2, w'')))"

definition init_error :: "js_error \<Rightarrow> js_error" where
  "init_error e = SpecServiceError ''Failed to initialize FileSystemSpecService'' INIT_ERROR (Some e)"

definition initialize ::
  "FileSystemSpecService \<Rightarrow> World \<Rightarrow> (js_error + unit) \<times> FileSystemSpecService \<times> World" where
  "initialize s w =
     (case ensureDirectories s w of
        Inl e \<Rightarrow> (Inl (init_error e), resetState s, w)
      | Inr u \<Rightarrow>
         (case loadExistingCatalog s w of
            (loaded, s1, w1) \<Rightarrow>
              (case scanAndSave (folderPath s1) s1 w1 of
                 (Inl e, s2, w2) \<Rightarrow> (Inl (init_error e), resetState s2, w2)
               | (Inr u, s2, w2) \<Rightarrow> (Inr (), s2, w2))))"

definition refresh ::
  "FileSystemSpecService \<Rightarrow> World \<Rightarrow> (js_error + unit) \<times> FileSystemSpecService \<times> World" where
  "refresh s w =
     (if folderPath s = [] then (Inl (Error ''FileSystemSpecService not initialized''), s, w)
      else initialize s w)"

text \<open>
  The operations in flight settle: each runs the rest of its body on the service as it
  is then. In the model this happens between two calls of the service, all at once.
\<close>

fun land :: "landing \<Rightarrow> FileSystemSpecService \<Rightarrow> World \<Rightarrow> FileSystemSpecService \<times> World" where
  "land (SaveLanding sid d) s w =
     (s\<lparr>specs := (specs s)(sid \<mapsto> d), specCache := cache_set (specCache s) (clock w) sid d\<rparr>,
      w\<lparr>spec_files := (spec_files w)(spec_file s sid \<mapsto> Parsed d)\<rparr>)"
| "land (LoadLanding sid d) s w =
     (s\<lparr>specCache := cache_set (specCache s) (clock w) sid d\<rparr>, w)"

fun land_all :: "landing list \<Rightarrow> FileSystemSpecService \<Rightarrow> World \<Rightarrow> FileSystemSpecService \<times> World" where
  "land_all [] s w = (s, w)"
| "land_all (l # ls) s w = (case land l s w of (s', w') \<Rightarrow> land_all ls s' w')"

definition settle :: "FileSystemSpecService \<Rightarrow> World \<Rightarrow> FileSystemSpecService \<times> World" where
  "settle s w = land_all (in_flight w) s (w\<lparr>in_flight := []\<rparr>)"

fun is_load :: "landing \<Rightarrow> bool" where
  "is_load (SaveLanding sid d) = False"
| "is_load (LoadLanding sid d) = True"

subsection \<open>Point lookups\<close>

text \<open>
  A value that is inherited, and so is neither an operation nor a schema, is returned
  through the casts of the source like any other value; it has none of the properties
  that the records below hold.
\<close>

definition no_operation :: OperationObject where
  "no_operation = \<lparr>operationId = None, summary = None, description = None, tags = None\<rparr>"

definition no_schema :: SchemaObject where
  "no_schema = \<lparr>schema_description = None\<rparr>"

definition operation_uri :: "string \<Rightarrow> string \<Rightarrow> string" where
  "operation_uri sid oid = ''apis://'' @ sid @ ''/operations/'' @ oid"

definition findSchemaByName ::
  "FileSystemSpecService \<Rightarrow> string \<Rightarrow> string \<Rightarrow> js_error + LoadSchemaResult option" where
  "findSchemaByName s sid schemaName =
     (case get_prop (specs s) sid of
        Undefined \<Rightarrow> Inr None
      | Inherited k \<Rightarrow> Inr None
      | Own d \<Rightarrow>
         (case Option.bind (components d) schemas of
            None \<Rightarrow> Inr None
          | Some ss \<Rightarrow>
             (case get_prop (map_of ss) schemaName of
                Undefined \<Rightarrow> Inr None
              | Inherited k \<Rightarrow>
                  Inr (Some \<lparr>ls_name = schemaName, ls_description = None, ls_schema = no_schema,
                             ls_uri = ''apis://'' @ sid @ ''/schemas/'' @ schemaName\<rparr>)
              | Own sc \<Rightarrow>
                  Inr (Some \<lparr>ls_name = schemaName, ls_description = schema_description sc, ls_schema = sc,
                             ls_uri = ''apis://'' @ sid @ ''/schemas/'' @ schemaName\<rparr>))))"

text \<open>
  The inner loop of \<^verbatim>\<open>findOperationById\<close>, over all keys of one path item: it skips no
  key and reads \<^verbatim>\<open>pathItem[method]["operationId"]\<close> with no check of the value, which
  throws on \<^verbatim>\<open>undefined\<close>.
\<close>

fun find_in_methods ::
  "string \<Rightarrow> string \<Rightarrow> string \<Rightarrow> PathItemObject \<Rightarrow> js_error + LoadOperationResult option" where
  "find_in_methods sid oid p [] = Inr None"
| "find_in_methods sid oid p ((m, v) # rest) =
     (case v of
        None \<Rightarrow> Inl TypeError
      | Some operation \<Rightarrow>
          if operationId operation = Some oid
          then Inr (Some \<lparr>lo_path = p, lo_method = m, lo_operation = operation, lo_specId = sid,
                          lo_uri = operation_uri sid oid\<rparr>)
          else find_in_methods sid oid p rest)"

fun find_in_paths ::
  "string \<Rightarrow> string \<Rightarrow> PathsObject \<Rightarrow> js_error + LoadOperationResult option" where
  "find_in_paths sid oid [] = Inr None"
| "find_in_paths sid oid ((p, item) # rest) =
     (case item of
        None \<Rightarrow> find_in_paths sid oid rest
      | Some pathItem \<Rightarrow>
         (case find_in_methods sid oid p pathItem of
            Inl e \<Rightarrow> Inl e
          | Inr (Some r) \<Rightarrow> Inr (Some r)
          | Inr None \<Rightarrow> find_in_paths sid oid rest))"

definition findOperationById ::
  "FileSystemSpecService \<Rightarrow> string \<Rightarrow> string \<Rightarrow> js_error + LoadOperationResult option" where
  "findOperationById s sid oid =
     (case get_prop (specs s) sid of
        Undefined \<Rightarrow> Inr None
      | Inherited k \<Rightarrow> Inr None
      | Own d \<Rightarrow> find_in_paths sid oid (paths d))"

text \<open>
  \<^verbatim>\<open>findOperationByPathAndMethod\<close> reads three objects under keys given by the caller.
  An inherited value under \<open>specId\<close> is truthy and has no \<^verbatim>\<open>paths\<close>, so that
  \<^verbatim>\<open>spec.paths[path]\<close> throws. An inherited value under \<open>path\<close> is truthy, and the read
  of \<open>method\<close> on it is the runtime's. An inherited value under \<open>method\<close> is truthy and
  is returned as the operation; it has no \<^verbatim>\<open>operationId\<close>.
\<close>

definition findOperationByPathAndMethod ::
  "runtime \<Rightarrow> FileSystemSpecService \<Rightarrow> string \<Rightarrow> string \<Rightarrow> string \<Rightarrow>
     js_error + LoadOperationResult option" where
  "findOperationByPathAndMethod rt s sid p m =
     (let bogus = \<lparr>lo_path = p, lo_method = m, lo_operation = no_operation, lo_specId = sid,
                   lo_uri = operation_uri sid (template None)\<rparr>
      in case get_prop (specs s) sid of
        Undefined \<Rightarrow> Inr None
      | Inherited k \<Rightarrow> Inl TypeError
      | Own d \<Rightarrow>
         (case get_prop (map_of (paths d)) p of
            Undefined \<Rightarrow> Inr None
          | Inherited k \<Rightarrow>
             (case rt k m of
                Throws \<Rightarrow> Inl TypeError
              | Falsy \<Rightarrow> Inr None
              | Truthy \<Rightarrow> Inr (Some bogus))
          | Own None \<Rightarrow> Inr None
          | Own (Some pathItem) \<Rightarrow>
             (case get_prop (map_of pathItem) m of
                Undefined \<Rightarrow> Inr None
              | Inherited k \<Rightarrow> Inr (Some bogus)
              | Own None \<Rightarrow> Inr None
              | Own (Some operation) \<Rightarrow>
                  Inr (Some \<lparr>lo_path = p, lo_method = m, lo_operation = operation, lo_specId = sid,
                             lo_uri = operation_uri sid (template (operationId operation))\<rparr>))))"

subsection \<open>Search\<close>

text \<open>
  The scope of both searches: \<^verbatim>\<open>if (specId)\<close> is false for \<^verbatim>\<open>undefined\<close> and for the
  empty string; \<^verbatim>\<open>this.catalog.find\<close> gives the first entry with that id.
\<close>

definition targetSpecs :: "FileSystemSpecService \<Rightarrow> string option \<Rightarrow> SpecCatalogEntry list" where
  "targetSpecs s sid =
     (case sid of
        None \<Rightarrow> catalog s
      | Some i \<Rightarrow>
          if i = [] then catalog s
          else (case find (\<lambda>entry. specId (uri entry) = i) (catalog s) of
                  None \<Rightarrow> []
                | Some entry \<Rightarrow> [entry]))"

text \<open>
  \<^verbatim>\<open>[operationId, summary, description, ...(tags || [])].filter(Boolean).join(" ").toLowerCase()\<close>:
  \<^verbatim>\<open>filter(Boolean)\<close> drops \<^verbatim>\<open>undefined\<close> and the empty string.
\<close>

definition truthy_strings :: "string option list \<Rightarrow> string list" where
  "truthy_strings xs = concat (map (\<lambda>x. case x of None \<Rightarrow> [] | Some t \<Rightarrow> if t = [] then [] else [t]) xs)"

definition searchText :: "OperationObject \<Rightarrow> string" where
  "searchText operation =
     toLowerCase (join_space (truthy_strings
       ([operationId operation, summary operation, description operation]
        @ map Some (case tags operation of None \<Rightarrow> [] | Some ts \<Rightarrow> ts))))"

fun search_methods ::
  "string \<Rightarrow> string \<Rightarrow> string \<Rightarrow> PathItemObject \<Rightarrow> LoadOperationResult list \<Rightarrow> LoadOperationResult list" where
  "search_methods query sid p [] results = results"
| "search_methods query sid p ((m, v) # rest) results =
     (if structural_key m then search_methods query sid p rest results
      else
        (case v of
           None \<Rightarrow> search_methods query sid p rest results
         | Some operation \<Rightarrow>
             if str_includes (searchText operation) (toLowerCase query)
             then search_methods query sid p rest
                    (results @ [\<lparr>lo_path = p, lo_method = m, lo_operation = operation, lo_specId = sid,
                                 lo_uri = operation_uri sid (template (operationId operation))\<rparr>])
             else search_methods query sid p rest results))"

fun search_paths ::
  "string \<Rightarrow> string \<Rightarrow> PathsObject \<Rightarrow> LoadOperationResult list \<Rightarrow> LoadOperationResult list" where
  "search_paths query sid [] results = results"
| "search_paths query sid ((p, item) # rest) results =
     (case item of
        None \<Rightarrow> search_paths query sid rest results
      | Some pathItem \<Rightarrow> search_paths query sid rest (search_methods query sid p pathItem results))"

fun search_specs ::
  "FileSystemSpecService \<Rightarrow> string \<Rightarrow> SpecCatalogEntry list \<Rightarrow> LoadOperationResult list \<Rightarrow>
     LoadOperationResult list" where
  "search_specs s query [] results = results"
| "search_specs s query (entry # rest) results =
     (case get_prop (specs s) (specId (uri entry)) of
        Undefined \<Rightarrow> search_specs s query rest results
      | Inherited k \<Rightarrow> search_specs s query rest results
      | Own specDoc \<Rightarrow>
          search_specs s query rest (search_paths query (specId (uri entry)) (paths specDoc) results))"

definition searchOperations ::
  "FileSystemSpecService \<Rightarrow> string \<Rightarrow> string option \<Rightarrow> LoadOperationResult list" where
  "searchOperations s query sid = search_specs s query (targetSpecs s sid) []"

text \<open>
  \<^verbatim>\<open>searchSchemas\<close> hands its candidates to the library Fuse.js
  (\<^verbatim>\<open>new Fuse(schemaEntries, {includeScore: true, threshold: 0.2, keys: ["name",
  "description"]}).search(query)\<close>) and returns the items of the result. The library is
  not part of the repository; its search is the parameter \<open>fuse_search\<close>, applied to the
  threshold in tenths, the keys, the candidates and the query.
\<close>

record AnnotatedSchemaEntry = SpecSchemaEntry +
  ann_specId :: string

fun schema_candidates :: "SpecCatalogEntry list \<Rightarrow> AnnotatedSchemaEntry list \<Rightarrow> AnnotatedSchemaEntry list" where
  "schema_candidates [] schemaEntries = schemaEntries"
| "schema_candidates (entry # rest) schemaEntries =
     schema_candidates rest
       (schemaEntries @
        map (\<lambda>sc. \<lparr>name = name sc, se_description = se_description sc, ann_specId = specId (uri entry)\<rparr>)
          (cat_schemas entry))"

definition searchSchemas ::
  "(nat \<Rightarrow> string list \<Rightarrow> AnnotatedSchemaEntry list \<Rightarrow> string \<Rightarrow> AnnotatedSchemaEntry list) \<Rightarrow>
     FileSystemSpecService \<Rightarrow> string \<Rightarrow> string option \<Rightarrow> AnnotatedSchemaEntry list" where
  "searchSchemas fuse_search s query sid =
     fuse_search 2 [''name'', ''description''] (schema_candidates (targetSpecs s sid) []) query"

subsection \<open>Well-formed documents\<close>

text \<open>Every key of every path item of the document holds a value.\<close>

definition all_values_defined :: "PathsObject \<Rightarrow> bool" where
  "all_values_defined ps =
     list_all (\<lambda>(p, item). case item of None \<Rightarrow> True
                 | Some pathItem \<Rightarrow> list_all (\<lambda>(m, v). v \<noteq> None) pathItem) ps"

text \<open>A scan result that the builder takes: no \<^verbatim>\<open>error\<close>, and the extraction does not throw.\<close>

definition accepted :: "ScanResult \<Rightarrow> bool" where
  "accepted r =
     (error r = None \<and> (case make_entry (spec r) (scan_specId r) of Inl e \<Rightarrow> False | Inr entry \<Rightarrow> True))"

subsection \<open>The corpus as the specification words it\<close>

text \<open>
  Section 4.4 of the specification builds the search corpus ``from
  \<^verbatim>\<open>operationId + summary + description + tags\<close> (missing fields omitted)'': the
  concatenation of the fields that are there. This definition follows those words;
  \<open>searchText\<close> above follows the source.
\<close>

definition present_strings :: "string option list \<Rightarrow> string list" where
  "present_strings xs = concat (map (\<lambda>x. case x of None \<Rightarrow> [] | Some t \<Rightarrow> [t]) xs)"

definition corpus_spec :: "OperationObject \<Rightarrow> string" where
  "corpus_spec operation =
     concat (present_strings
       ([operationId operation, summary operation, description operation]
        @ map Some (case tags operation of None \<Rightarrow> [] | Some ts \<Rightarrow> ts)))"

subsection \<open>Example data\<close>

definition listPets :: OperationObject where
  "listPets = \<lparr>operationId = Some ''listPets'', summary = Some ''List all pets'',
                description = None, tags = Some [''pets'']\<rparr>"

definition createPet :: OperationObject where
  "createPet = \<lparr>operationId = Some ''createPet'', summary = Some ''Create a pet'',
                 description = None, tags = Some [''pets'']\<rparr>"

definition untitled :: OperationObject where
  "untitled = \<lparr>operationId = None, summary = None, description = None, tags = None\<rparr>"

definition petstore :: Document where
  "petstore =
     \<lparr>info = \<lparr>info_description = Some ''A pet store''\<rparr>,
      paths = [(''/pets'', Some [(''get'', Some listPets), (''post'', Some createPet)]),
               (''/health'', Some [(''get'', Some untitled)])],
      components = Some \<lparr>schemas = Some [(''Pet'', \<lparr>schema_description = Some ''A pet''\<rparr>)]\<rparr>\<rparr>"

definition listOrders :: OperationObject where
  "listOrders = \<lparr>operationId = Some ''listOrders'', summary = Some ''Orders of a pet owner'',
                  description = None, tags = None\<rparr>"

definition orders :: Document where
  "orders =
     \<lparr>info = \<lparr>info_description = None\<rparr>,
      paths = [(''/orders'', Some [(''get'', Some listOrders)])],
      components = None\<rparr>"

text \<open>A document with a path item whose \<^verbatim>\<open>parameters\<close> key is there and holds no value.\<close>

definition sparse :: Document where
  "sparse =
     \<lparr>info = \<lparr>info_description = None\<rparr>,
      paths = [(''/pets'', Some [(''parameters'', None), (''get'', Some listPets)])],
      components = None\<rparr>"

definition example_config :: SpecServiceConfig where
  "example_config =
     \<lparr>basePath = ''specs'', catalogDir = None, dereferencedDir = None, retryAttempts = None,
      retryDelay = None, cache = None\<rparr>"

definition service0 :: FileSystemSpecService where
  "service0 = constructor example_config"

definition scanned :: "string \<Rightarrow> Document \<Rightarrow> ScanResult" where
  "scanned sid d = \<lparr>filename = sid @ ''.yaml'', spec = d, scan_specId = sid, error = None\<rparr>"

definition scan_failed :: "string \<Rightarrow> ScanResult" where
  "scan_failed sid =
     \<lparr>filename = sid @ ''.yaml'', spec = orders, scan_specId = sid, error = Some SyntaxError\<rparr>"

text \<open>
  A world with an empty, writable file system, whose scanner yields \<open>rs\<close>; the
  operations of a batch settle in the order of the batch, and nothing is in flight.
\<close>

definition world0 :: "ScanResult list \<Rightarrow> World" where
  "world0 rs =
     \<lparr>clock = 0, mkdir_error = (\<lambda>d. None), write_error = (\<lambda>p. None),
      spec_files = Map.empty, catalog_files = Map.empty, read_log = [],
      scan = (\<lambda>d. (rs, None)), save_rank = (\<lambda>i. i), load_rank = (\<lambda>i. i), in_flight = []\<rparr>"

text \<open>The service after a first build over two documents, on an empty file system.\<close>

definition world1 :: World where
  "world1 = world0 [scanned ''petstore'' petstore, scanned ''orders'' orders]"

definition petstore_entry :: SpecCatalogEntry where
  "petstore_entry =
     \<lparr>uri = \<lparr>specId = ''petstore'', type = Specification, uri_identifier = ''petstore''\<rparr>,
      cat_description = Some ''A pet store'',
      operations =
        [\<lparr>op_path = ''/pets'', op_method = ''get'', op_title = Some ''List all pets'',
          op_description = None, op_group = Some ''pets'', op_operationId = Some ''listPets''\<rparr>,
         \<lparr>op_path = ''/pets'', op_method = ''post'', op_title = Some ''Create a pet'',
          op_description = None, op_group = Some ''pets'', op_operationId = Some ''createPet''\<rparr>,
         \<lparr>op_path = ''/health'', op_method = ''get'', op_title = None,
          op_description = None, op_group = None, op_operationId = None\<rparr>],
      cat_schemas = [\<lparr>name = ''Pet'', se_description = Some ''A pet''\<rparr>]\<rparr>"

definition orders_entry :: SpecCatalogEntry where
  "orders_entry =
     \<lparr>uri = \<lparr>specId = ''orders'', type = Specification, uri_identifier = ''orders''\<rparr>,
      cat_description = None,
      operations =
        [\<lparr>op_path = ''/orders'', op_method = ''get'', op_title = Some ''Orders of a pet owner'',
          op_description = None, op_group = None, op_operationId = Some ''listOrders''\<rparr>],
      cat_schemas = []\<rparr>"

definition service1 :: FileSystemSpecService where
  "service1 = fst (snd (scanAndSave ''specs'' service0 world1))"

text \<open>
  The world after that build, with one more file that cannot be parsed, and a fresh
  service on it.
\<close>

definition world2 :: World where
  "world2 =
     (snd (snd (scanAndSave ''specs'' service0 world1)))
       \<lparr>spec_files :=
          (spec_files (snd (snd (scanAndSave ''specs'' service0 world1))))
            (''specs/_dereferenced/broken.json'' \<mapsto> Unreadable SyntaxError)\<rparr>"

definition service2 :: FileSystemSpecService where
  "service2 = service0\<lparr>specCache := cache_set (specCache service0) 0 ''petstore'' petstore\<rparr>"

text \<open>
  A second build from the service after the first one: the source now holds another
  document under the id \<^verbatim>\<open>petstore\<close> and nothing else, and the catalog file cannot be
  written.
\<close>

definition world_unwritable :: World where
  "world_unwritable =
     world2\<lparr>scan := (\<lambda>d. ([scanned ''petstore'' sparse], None)),
            write_error := (\<lambda>p. if p = ''specs/_catalog/catalog.json''
                                  then Some (ErrnoException ''EACCES'') else None)\<rparr>"

text \<open>
  A restart after the first build: the files of the first build are there, and the
  source now holds the document \<^verbatim>\<open>petstore\<close> only.
\<close>

definition world_shrunk :: World where
  "world_shrunk = world2\<lparr>scan := (\<lambda>d. ([scanned ''petstore'' petstore], None))\<rparr>"

text \<open>A first build over three scan results, the second of which has \<^verbatim>\<open>error\<close> set.\<close>

definition world_three :: World where
  "world_three = world0 [scanned ''petstore'' petstore, scan_failed ''broken'', scanned ''orders'' orders]"

text \<open>
  A first build over two documents in which the file of the first, \<^verbatim>\<open>petstore\<close>, cannot
  be written; its write fails before the write of \<^verbatim>\<open>orders\<close> has finished.
\<close>

definition world_race :: World where
  "world_race =
     world1\<lparr>write_error := (\<lambda>p. if p = ''specs/_dereferenced/petstore.json''
                                  then Some (ErrnoException ''EACCES'') else None)\<rparr>"

text \<open>
  A second build from the service after the first one: of the three scan results, the
  one of \<^verbatim>\<open>orders\<close> now has \<^verbatim>\<open>error\<close> set.
\<close>

definition world_orders_failed :: World where
  "world_orders_failed =
     world2\<lparr>scan := (\<lambda>d. ([scanned ''petstore'' petstore, scan_failed ''orders'',
                             scanned ''sparse'' sparse], None))\<rparr>"

text \<open>
  A restart after the first build: the file of \<^verbatim>\<open>petstore\<close> has been lost, and the
  scanner throws.
\<close>

definition world_lost :: World where
  "world_lost =
     world2\<lparr>spec_files := (spec_files world2)(''specs/_dereferenced/petstore.json'' := None),
            scan := (\<lambda>d. ([], Some (ErrnoException ''EACCES'')))\<rparr>"

section \<open>Properties\<close>

subsection \<open>Constructor defaults\<close>




subsection \<open>Evaluation of the examples\<close>

lemmas example_defs = listPets_def createPet_def untitled_def petstore_def listOrders_def orders_def
  sparse_def example_config_def service0_def scanned_def scan_failed_def world0_def world1_def
  no_operation_def no_schema_def

lemmas engine_defs = constructor_def required_config_def new_cache_def path_join_def
  ensureDirectory_def ensureDirectories_def resetState_def spec_file_def catalog_file_def
  saveSpec_def saveSpecCatalog_def loadSpecCatalog_def loadSpec_def cache_get_def cache_set_def
  cache_clear_def structural_key_def extract_schemas_def make_entry_def scan_error_def
  scanAndSave_def loadExistingCatalog_def init_error_def initialize_def refresh_def
  settle_order_def save_succeeds_def save_all_def load_all_def read_file_def settle_def get_prop_def

lemma make_entry_petstore: "make_entry petstore sid = Inr (petstore_entry\<lparr>uri := \<lparr>specId = sid, type = Specification, uri_identifier = sid\<rparr>\<rparr>)"
  by (simp add: make_entry_def petstore_entry_def example_defs structural_key_def extract_schemas_def)

lemma make_entry_orders: "make_entry orders sid = Inr (orders_entry\<lparr>uri := \<lparr>specId = sid, type = Specification, uri_identifier = sid\<rparr>\<rparr>)"
  by (simp add: make_entry_def orders_entry_def example_defs structural_key_def extract_schemas_def)

lemma service1_catalog: "catalog service1 = [petstore_entry, orders_entry]"
  by (simp add: service1_def example_defs engine_defs Let_def petstore_entry_def orders_entry_def)

lemma service1_specs: "specs service1 = [''petstore'' \<mapsto> petstore, ''orders'' \<mapsto> orders]"
  by (simp add: service1_def example_defs engine_defs Let_def)

lemma service1_eval:
  "folderPath service1 = ''specs''" "catalogPath service1 = ''specs/_catalog''"
  "dereferencedPath service1 = ''specs/_dereferenced''"
  by (simp_all add: service1_def example_defs engine_defs Let_def)

lemma service1_cache:
  "specCache service1 =
     \<lparr>cache_maxSize = 500, cache_ttl = 3600000,
      entries = [(''petstore'', petstore, 0), (''orders'', orders, 0)]\<rparr>"
  by (simp add: service1_def example_defs engine_defs Let_def)

lemma service1_record:
  "service1 =
     \<lparr>config = config service0, folderPath = ''specs'', catalogPath = ''specs/_catalog'',
      dereferencedPath = ''specs/_dereferenced'',
      specCache = \<lparr>cache_maxSize = 500, cache_ttl = 3600000,
                   entries = [(''petstore'', petstore, 0), (''orders'', orders, 0)]\<rparr>,
      specs = [''petstore'' \<mapsto> petstore, ''orders'' \<mapsto> orders],
      catalog = [petstore_entry, orders_entry]\<rparr>"
  by (simp add: service1_def example_defs engine_defs Let_def petstore_entry_def orders_entry_def)

lemma service0_eval:
  "dereferencedPath service0 = ''specs/_dereferenced''" "entries (specCache service0) = []"
  "cache_ttl (specCache service0) = 3600000" "cache_maxSize (specCache service0) = 500"
  by (simp_all add: example_defs engine_defs Let_def)

lemma world2_record:
  "world2 =
     \<lparr>clock = 0, mkdir_error = (\<lambda>d. None), write_error = (\<lambda>p. None),
      spec_files = [''specs/_dereferenced/petstore.json'' \<mapsto> Parsed petstore,
                    ''specs/_dereferenced/orders.json'' \<mapsto> Parsed orders,
                    ''specs/_dereferenced/broken.json'' \<mapsto> Unreadable SyntaxError],
      catalog_files = [''specs/_catalog/catalog.json'' \<mapsto> Parsed [petstore_entry, orders_entry]],
      read_log = [],
      scan = (\<lambda>d. ([scanned ''petstore'' petstore, scanned ''orders'' orders], None)),
      save_rank = (\<lambda>i. i), load_rank = (\<lambda>i. i), in_flight = []\<rparr>"
  by (simp add: world2_def example_defs engine_defs Let_def petstore_entry_def orders_entry_def)

lemma world2_files:
  "catalog_files world2 = [''specs/_catalog/catalog.json'' \<mapsto> Parsed [petstore_entry, orders_entry]]"
  "mkdir_error world2 = (\<lambda>d. None)" "write_error world2 = (\<lambda>p. None)"
  "save_rank world2 = (\<lambda>i. i)" "load_rank world2 = (\<lambda>i. i)"
  by (simp_all add: world2_def example_defs engine_defs Let_def petstore_entry_def orders_entry_def)

lemma world2_eval:
  "clock world2 = 0" "read_log world2 = []" "in_flight world2 = []"
  "spec_files world2 ''specs/_dereferenced/petstore.json'' = Some (Parsed petstore)"
  "spec_files world2 ''specs/_dereferenced/missing.json'' = None"
  "spec_files world2 ''specs/_dereferenced/broken.json'' = Some (Unreadable SyntaxError)"
  by (simp_all add: world2_def example_defs engine_defs Let_def)

subsection \<open>Lookup by path and method\<close>

lemma get_prop_Own: "get_prop own k = Own v \<longleftrightarrow> own k = Some v"
  by (simp add: get_prop_def split: option.splits)





subsection \<open>Point lookups that find nothing\<close>

lemma lookups_of_absent_spec:
  "specs s sid = None \<Longrightarrow> \<not> inherited_key sid \<Longrightarrow>
     findOperationById s sid oid = Inr None
     \<and> findOperationByPathAndMethod rt s sid p m = Inr None
     \<and> findSchemaByName s sid n = Inr None"
  by (simp add: findOperationById_def findOperationByPathAndMethod_def findSchemaByName_def
      get_prop_def)

lemma findOperationById_inherited_spec:
  "specs s sid = None \<Longrightarrow> findOperationById s sid oid = Inr None \<and> findSchemaByName s sid n = Inr None"
  by (simp add: findOperationById_def findSchemaByName_def get_prop_def)

lemma findSchemaByName_total: "\<exists>r. findSchemaByName s sid n = Inr r"
  by (auto simp: findSchemaByName_def split: option.splits read.splits)

text \<open>
  A schema name that is inherited finds a value that is not a schema: the document
  \<^verbatim>\<open>petstore\<close> has the one schema \<^verbatim>\<open>Pet\<close>, and the lookup of \<^verbatim>\<open>constructor\<close> returns a
  result.
\<close>

lemma findSchemaByName_inherited_name:
  "findSchemaByName service1 ''petstore'' ''constructor'' =
     Inr (Some \<lparr>ls_name = ''constructor'', ls_description = None, ls_schema = no_schema,
                ls_uri = ''apis://petstore/schemas/constructor''\<rparr>)
   \<and> findSchemaByName service1 ''petstore'' ''Cat'' = Inr None"
  by (simp add: findSchemaByName_def get_prop_def inherited_key_def service1_specs petstore_def)

text \<open>\<^verbatim>\<open>findOperationById\<close> returns on a document all of whose path-item values are there.\<close>

lemma find_in_methods_defined:
  "list_all (\<lambda>(m, v). v \<noteq> None) item \<Longrightarrow> \<exists>r. find_in_methods sid oid p item = Inr r"
  by (induction item) (auto split: option.splits)

lemma find_in_paths_defined:
  "all_values_defined ps \<Longrightarrow> \<exists>r. find_in_paths sid oid ps = Inr r"
proof (induction ps)
  case Nil
  then show ?case by simp
next
  case (Cons a ps)
  obtain p item where a: "a = (p, item)" by (cases a)
  show ?case
  proof (cases item)
    case None
    with Cons a show ?thesis by (simp add: all_values_defined_def)
  next
    case (Some pathItem)
    with Cons.prems a have "list_all (\<lambda>(m, v). v \<noteq> None) pathItem"
      by (simp add: all_values_defined_def)
    then obtain r where "find_in_methods sid oid p pathItem = Inr r"
      using find_in_methods_defined by blast
    with Cons a Some show ?thesis
      by (cases r) (auto simp: all_values_defined_def)
  qed
qed

text \<open>
  Claim C6, at a failing input. A build over the document \<open>sparse\<close> succeeds, since
  the extraction skips the key \<^verbatim>\<open>parameters\<close>, and stores the document. The document
  has no operation \<^verbatim>\<open>createPet\<close>; \<^verbatim>\<open>findOperationById\<close> enumerates the key
  \<^verbatim>\<open>parameters\<close>, reads \<^verbatim>\<open>operationId\<close> of its value and throws a \<^verbatim>\<open>TypeError\<close>,
  where the claim has it return \<^verbatim>\<open>null\<close>. The other two lookups return \<^verbatim>\<open>null\<close>.
\<close>

theorem findOperationById_throws_on_undefined_value:
  "fst (scanAndSave ''specs'' service0 (world0 [scanned ''sparse'' sparse])) = Inr ()
   \<and> specs (fst (snd (scanAndSave ''specs'' service0 (world0 [scanned ''sparse'' sparse])))) ''sparse''
       = Some sparse
   \<and> findOperationById (fst (snd (scanAndSave ''specs'' service0 (world0 [scanned ''sparse'' sparse]))))
       ''sparse'' ''createPet'' = Inl TypeError
   \<and> findOperationByPathAndMethod rt
       (fst (snd (scanAndSave ''specs'' service0 (world0 [scanned ''sparse'' sparse]))))
       ''sparse'' ''/pets'' ''post'' = Inr None
   \<and> findSchemaByName (fst (snd (scanAndSave ''specs'' service0 (world0 [scanned ''sparse'' sparse]))))
       ''sparse'' ''Pet'' = Inr None"
  by (simp add: example_defs engine_defs findOperationById_def findOperationByPathAndMethod_def
        findSchemaByName_def inherited_key_def Let_def)

subsection \<open>Operation search\<close>

lemma starts_with_iff: "starts_with s q \<longleftrightarrow> (\<exists>post. s = q @ post)"
  by (induction s q rule: starts_with.induct) auto

lemma str_includes_iff: "str_includes s q \<longleftrightarrow> (\<exists>pre post. s = pre @ q @ post)"
proof (induction s)
  case Nil
  then show ?case by auto
next
  case (Cons d s)
  have "(\<exists>pre post. d # s = pre @ q @ post) \<longleftrightarrow>
        (\<exists>post. d # s = q @ post) \<or> (\<exists>pre post. s = pre @ q @ post)"
  proof
    assume "\<exists>pre post. d # s = pre @ q @ post"
    then obtain pre post where e: "d # s = pre @ q @ post" by blast
    show "(\<exists>post. d # s = q @ post) \<or> (\<exists>pre post. s = pre @ q @ post)"
    proof (cases pre)
      case Nil
      with e show ?thesis by auto
    next
      case (Cons a pre')
      with e have "s = pre' @ q @ post" by simp
      then show ?thesis by blast
    qed
  next
    assume "(\<exists>post. d # s = q @ post) \<or> (\<exists>pre post. s = pre @ q @ post)"
    then show "\<exists>pre post. d # s = pre @ q @ post"
    proof
      assume "\<exists>post. d # s = q @ post"
      then obtain post where "d # s = [] @ q @ post" by auto
      then show ?thesis by blast
    next
      assume "\<exists>pre post. s = pre @ q @ post"
      then obtain pre post where "s = pre @ q @ post" by blast
      then have "d # s = (d # pre) @ q @ post" by simp
      then show ?thesis by blast
    qed
  qed
  with Cons show ?case by (simp add: starts_with_iff)
qed

lemma truthy_strings_eq: "truthy_strings xs = filter (\<lambda>t. t \<noteq> []) (present_strings xs)"
  by (induction xs) (auto simp: truthy_strings_def present_strings_def split: option.splits)

text \<open>The three loops push the matches behind what was found before.\<close>

lemma search_methods_eq:
  "search_methods q sid p item acc = acc @
     [\<lparr>lo_path = p, lo_method = m, lo_operation = operation, lo_specId = sid,
       lo_uri = ''apis://'' @ sid @ ''/operations/'' @ template (operationId operation)\<rparr>.
        (m, Some operation) \<leftarrow> item, \<not> structural_key m,
        str_includes (searchText operation) (toLowerCase q)]"
  by (induction item arbitrary: acc) (auto simp: operation_uri_def split: option.splits)

lemma search_paths_eq:
  "search_paths q sid ps acc = acc @
     [\<lparr>lo_path = p, lo_method = m, lo_operation = operation, lo_specId = sid,
       lo_uri = ''apis://'' @ sid @ ''/operations/'' @ template (operationId operation)\<rparr>.
        (p, Some pathItem) \<leftarrow> ps, (m, Some operation) \<leftarrow> pathItem, \<not> structural_key m,
        str_includes (searchText operation) (toLowerCase q)]"
  by (induction ps arbitrary: acc) (auto simp: search_methods_eq split: option.splits)

lemma search_specs_eq:
  "search_specs s q es acc = acc @
     [\<lparr>lo_path = p, lo_method = m, lo_operation = operation, lo_specId = specId (uri entry),
       lo_uri = ''apis://'' @ specId (uri entry) @ ''/operations/'' @ template (operationId operation)\<rparr>.
        entry \<leftarrow> es,
        d \<leftarrow> (case specs s (specId (uri entry)) of None \<Rightarrow> [] | Some d \<Rightarrow> [d]),
        (p, Some pathItem) \<leftarrow> paths d, (m, Some operation) \<leftarrow> pathItem, \<not> structural_key m,
        str_includes (searchText operation) (toLowerCase q)]"
  by (induction es arbitrary: acc) (auto simp: search_paths_eq get_prop_def split: option.splits)

text \<open>
  Claim C5, as stated, at a concrete input. The operation \<^verbatim>\<open>listPets\<close> of the stored
  document \<^verbatim>\<open>petstore\<close> has the fields \<^verbatim>\<open>listPets\<close>, \<^verbatim>\<open>List all pets\<close> and the tag
  \<^verbatim>\<open>pets\<close>. Their concatenation, case-folded, is \<^verbatim>\<open>listpetslist all petspets\<close> and
  contains the case-folded query \<^verbatim>\<open>petslist\<close>, so the claim has the operation
  returned; the search returns nothing, because the source joins the fields with
  spaces.
\<close>

theorem searchOperations_concatenation_counterexample:
  "specs service1 ''petstore'' = Some petstore
   \<and> map_of (paths petstore) ''/pets'' = Some (Some [(''get'', Some listPets), (''post'', Some createPet)])
   \<and> str_includes (toLowerCase (corpus_spec listPets)) (toLowerCase ''PetsList'')
   \<and> searchOperations service1 ''PetsList'' None = []"
  by (simp add: service1_def example_defs engine_defs Let_def searchOperations_def targetSpecs_def
        searchText_def truthy_strings_def corpus_spec_def present_strings_def toLowerCase_def
        lower_char_def operation_uri_def)

text \<open>
  Claim C5, amended. \<^verbatim>\<open>searchOperations\<close> returns exactly the operations in scope whose
  search text contains the lower-cased query as a substring, where the search text of
  an operation is the lower-cased text of its non-empty \<^verbatim>\<open>operationId\<close>, \<^verbatim>\<open>summary\<close>,
  \<^verbatim>\<open>description\<close> and tags, in this order, joined by single spaces. The result lists the
  matches of one document in the enumeration order of its paths and of the methods of
  each path, and the documents in the order of the catalog entries in scope; the
  keys \<^verbatim>\<open>parameters\<close> and \<^verbatim>\<open>$ref\<close>, values that are not there and catalog entries
  without a stored document contribute nothing.
\<close>

theorem searchOperations_matches_in_order:
  "searchOperations s query sid =
     [\<lparr>lo_path = p, lo_method = m, lo_operation = operation, lo_specId = specId (uri entry),
       lo_uri = ''apis://'' @ specId (uri entry) @ ''/operations/'' @ template (operationId operation)\<rparr>.
        entry \<leftarrow> targetSpecs s sid,
        d \<leftarrow> (case specs s (specId (uri entry)) of None \<Rightarrow> [] | Some d \<Rightarrow> [d]),
        (p, Some pathItem) \<leftarrow> paths d, (m, Some operation) \<leftarrow> pathItem, \<not> structural_key m,
        str_includes (searchText operation) (toLowerCase query)]
   \<and> searchText operation' =
       toLowerCase (join_space (filter (\<lambda>t. t \<noteq> [])
         (present_strings ([operationId operation', summary operation', description operation']
            @ map Some (case tags operation' of None \<Rightarrow> [] | Some ts \<Rightarrow> ts)))))
   \<and> (str_includes t q \<longleftrightarrow> (\<exists>pre post. t = pre @ q @ post))"
  using search_specs_eq [of s query "targetSpecs s sid" "[]"]
  by (simp add: searchOperations_def searchText_def truthy_strings_eq str_includes_iff)

theorem searchOperations_examples:
  "map lo_uri (searchOperations service1 ''pet'' None) =
     [''apis://petstore/operations/listPets'', ''apis://petstore/operations/createPet'',
      ''apis://orders/operations/listOrders'']
   \<and> searchOperations service1 ''PET'' None = searchOperations service1 ''pet'' None
   \<and> map lo_uri (searchOperations service1 ''pet'' (Some ''orders'')) =
     [''apis://orders/operations/listOrders'']
   \<and> map lo_uri (searchOperations service1 ''listPets LIST'' None) = [''apis://petstore/operations/listPets'']"
  using searchOperations_matches_in_order [THEN conjunct1, of service1 "''pet''" None]
    searchOperations_matches_in_order [THEN conjunct1, of service1 "''PET''" None]
    searchOperations_matches_in_order [THEN conjunct1, of service1 "''pet''" "Some ''orders''"]
    searchOperations_matches_in_order [THEN conjunct1, of service1 "''listPets LIST''" None]
  by (simp add: targetSpecs_def service1_catalog petstore_entry_def orders_entry_def
        service1_specs example_defs structural_key_def searchText_def truthy_strings_def
        toLowerCase_def lower_char_def)

subsection \<open>Loading a document\<close>

lemma map_of_snoc_fresh: "k \<notin> fst ` set xs \<Longrightarrow> ([k \<mapsto> x] ++ map_of xs) k = Some x"
  by (simp add: map_add_def map_of_eq_None_iff[THEN iffD2])

lemma cache_set_lookup: "map_of (entries (cache_set c now k v)) k = Some (v, now)"
proof -
  let ?others = "filter (\<lambda>e. fst e \<noteq> k) (entries c)"
  have "k \<notin> fst ` set ?others" by auto
  moreover have "set (tl ?others) \<subseteq> set ?others" by (cases ?others) auto
  ultimately have "k \<notin> fst ` set (tl ?others)" by blast
  with \<open>k \<notin> fst ` set ?others\<close> show ?thesis
    by (simp add: cache_set_def Let_def map_of_snoc_fresh)
qed

lemma cache_set_ttl: "cache_ttl (cache_set c now k v) = cache_ttl c"
  by (simp add: cache_set_def Let_def)

lemma cache_get_ttl: "cache_ttl (snd (cache_get c now k)) = cache_ttl c"
  by (simp add: cache_get_def split: option.splits prod.splits)

lemma cache_get_hit:
  "map_of (entries c) k = Some (v, t0) \<Longrightarrow> t - t0 \<le> cache_ttl c \<Longrightarrow> cache_get c t k = (Some v, c)"
  by (simp add: cache_get_def)

lemma cache_get_Some:
  "cache_get c t k = (Some v, c') \<Longrightarrow> c' = c \<and> (\<exists>t0. map_of (entries c) k = Some (v, t0) \<and> t - t0 \<le> cache_ttl c)"
  by (auto simp: cache_get_def split: option.splits if_splits)

lemma loadSpec_hit:
  "cache_get (specCache s) (clock w) sid = (Some d, c) \<Longrightarrow> loadSpec sid s w = (Inr d, s\<lparr>specCache := c\<rparr>, w)"
  by (simp add: loadSpec_def)

lemma loadSpec_miss_read:
  "cache_get (specCache s) (clock w) sid = (None, c) \<Longrightarrow> spec_files w (spec_file s sid) = Some (Parsed d) \<Longrightarrow>
   loadSpec sid s w = (Inr d, s\<lparr>specCache := cache_set c (clock w) sid d\<rparr>, w\<lparr>read_log := spec_file s sid # read_log w\<rparr>)"
  by (simp add: loadSpec_def Let_def)

lemma loadSpec_not_found:
  "cache_get (specCache s) (clock w) sid = (None, c) \<Longrightarrow> spec_files w (spec_file s sid) = None \<Longrightarrow>
   \<exists>e s' w'. loadSpec sid s w = (Inl e, s', w') \<and> code e = Some LOAD_ERROR \<and> cause e = None"
  by (simp add: loadSpec_def Let_def)

lemma loadSpec_unreadable:
  "cache_get (specCache s) (clock w) sid = (None, c) \<Longrightarrow> spec_files w (spec_file s sid) = Some (Unreadable x) \<Longrightarrow>
   \<not> is_ENOENT x \<Longrightarrow>
   \<exists>e s' w'. loadSpec sid s w = (Inl e, s', w') \<and> code e = Some LOAD_ERROR \<and> cause e = Some x"
  by (simp add: loadSpec_def Let_def)

lemma loadSpec_error_code:
  "loadSpec sid s w = (Inl e, s', w') \<Longrightarrow> code e = Some LOAD_ERROR"
  by (auto simp: loadSpec_def Let_def split: option.splits prod.splits stored.splits if_splits)

lemma loadSpec_cached_after:
  assumes "loadSpec sid s w = (Inr d, s1, w1)"
  shows "\<exists>t0. map_of (entries (specCache s1)) sid = Some (d, t0)
     \<and> (fst (cache_get (specCache s) (clock w) sid) = None \<longrightarrow> t0 = clock w)"
proof (cases "cache_get (specCache s) (clock w) sid")
  case (Pair r c)
  show ?thesis
  proof (cases r)
    case None
    with Pair assms have "specCache s1 = cache_set c (clock w) sid d"
      by (auto simp: loadSpec_def Let_def split: option.splits stored.splits if_splits)
    with Pair None show ?thesis by (simp add: cache_set_lookup)
  next
    case (Some v)
    with Pair assms have "v = d" "specCache s1 = c" by (auto simp: loadSpec_def)
    with Pair Some cache_get_Some[of "specCache s" "clock w" sid d c] show ?thesis by auto
  qed
qed

lemma loadSpec_again:
  assumes "map_of (entries (specCache s1)) sid = Some (d, t0)" "t - t0 \<le> cache_ttl (specCache s1)"
  shows "loadSpec sid s1 (w1\<lparr>clock := t\<rparr>) = (Inr d, s1, w1\<lparr>clock := t\<rparr>)"
  using cache_get_hit[OF assms] by (simp add: loadSpec_def)

text \<open>
  Claim C4. \<^verbatim>\<open>loadSpec\<close> looks the id up in the cache first and returns the cached
  document on a hit, leaving the world, and so the log of storage reads, as it is. On
  a miss it reads the file of the id: a readable file is returned and put in the
  cache; a file that was never written gives \<^verbatim>\<open>LOAD_ERROR\<close> without cause; a read or
  parse failure \<open>x\<close> other than \<^verbatim>\<open>ENOENT\<close> gives \<^verbatim>\<open>LOAD_ERROR\<close> with cause \<open>x\<close>; every
  error of \<^verbatim>\<open>loadSpec\<close> is a \<^verbatim>\<open>LOAD_ERROR\<close>. After a call that returned \<open>d\<close>, the
  cache holds \<open>d\<close> with an insertion time \<open>t0\<close> (the time of the call, when it was a
  miss), and a next call at any time \<open>t\<close> with \<open>t - t0 \<le> ttl\<close> returns \<open>d\<close> again and
  changes neither the service nor the world: it reads no file.
\<close>

theorem loadSpec_cache_then_storage:
  "(cache_get (specCache s) (clock w) sid = (Some d, c) \<longrightarrow>
      loadSpec sid s w = (Inr d, s\<lparr>specCache := c\<rparr>, w))
   \<and> (cache_get (specCache s) (clock w) sid = (None, c) \<and>
        spec_files w (spec_file s sid) = Some (Parsed d) \<longrightarrow>
      loadSpec sid s w =
        (Inr d, s\<lparr>specCache := cache_set c (clock w) sid d\<rparr>,
         w\<lparr>read_log := spec_file s sid # read_log w\<rparr>))
   \<and> (cache_get (specCache s) (clock w) sid = (None, c) \<and> spec_files w (spec_file s sid) = None \<longrightarrow>
      (\<exists>e s' w'. loadSpec sid s w = (Inl e, s', w') \<and> code e = Some LOAD_ERROR \<and> cause e = None))
   \<and> (cache_get (specCache s) (clock w) sid = (None, c) \<and>
        spec_files w (spec_file s sid) = Some (Unreadable x) \<and> \<not> is_ENOENT x \<longrightarrow>
      (\<exists>e s' w'. loadSpec sid s w = (Inl e, s', w') \<and> code e = Some LOAD_ERROR \<and> cause e = Some x))
   \<and> (loadSpec sid s w = (Inl e, s', w') \<longrightarrow> code e = Some LOAD_ERROR)
   \<and> (loadSpec sid s w = (Inr d, s1, w1) \<longrightarrow>
      (\<exists>t0. map_of (entries (specCache s1)) sid = Some (d, t0)
         \<and> (fst (cache_get (specCache s) (clock w) sid) = None \<longrightarrow> t0 = clock w)
         \<and> (\<forall>t. t - t0 \<le> cache_ttl (specCache s1) \<longrightarrow>
               loadSpec sid s1 (w1\<lparr>clock := t\<rparr>) = (Inr d, s1, w1\<lparr>clock := t\<rparr>))))"
proof (intro conjI impI)
  assume "cache_get (specCache s) (clock w) sid = (Some d, c)"
  then show "loadSpec sid s w = (Inr d, s\<lparr>specCache := c\<rparr>, w)" by (rule loadSpec_hit)
next
  assume "cache_get (specCache s) (clock w) sid = (None, c) \<and>
    spec_files w (spec_file s sid) = Some (Parsed d)"
  then show "loadSpec sid s w =
    (Inr d, s\<lparr>specCache := cache_set c (clock w) sid d\<rparr>, w\<lparr>read_log := spec_file s sid # read_log w\<rparr>)"
    by (simp add: loadSpec_miss_read)
next
  assume "cache_get (specCache s) (clock w) sid = (None, c) \<and> spec_files w (spec_file s sid) = None"
  then show "\<exists>e s' w'. loadSpec sid s w = (Inl e, s', w') \<and> code e = Some LOAD_ERROR \<and> cause e = None"
    using loadSpec_not_found by blast
next
  assume "cache_get (specCache s) (clock w) sid = (None, c) \<and>
    spec_files w (spec_file s sid) = Some (Unreadable x) \<and> \<not> is_ENOENT x"
  then show "\<exists>e s' w'. loadSpec sid s w = (Inl e, s', w') \<and> code e = Some LOAD_ERROR \<and> cause e = Some x"
    using loadSpec_unreadable by blast
next
  assume "loadSpec sid s w = (Inl e, s', w')"
  then show "code e = Some LOAD_ERROR" by (rule loadSpec_error_code)
next
  assume l: "loadSpec sid s w = (Inr d, s1, w1)"
  from loadSpec_cached_after [OF l] obtain t0 where
    t0: "map_of (entries (specCache s1)) sid = Some (d, t0)"
      "fst (cache_get (specCache s) (clock w) sid) = None \<longrightarrow> t0 = clock w"
    by (elim exE conjE)
  have again: "\<forall>t. t - t0 \<le> cache_ttl (specCache s1) \<longrightarrow>
      loadSpec sid s1 (w1\<lparr>clock := t\<rparr>) = (Inr d, s1, w1\<lparr>clock := t\<rparr>)"
    using loadSpec_again [OF t0(1)] by simp
  show "\<exists>t0. map_of (entries (specCache s1)) sid = Some (d, t0)
     \<and> (fst (cache_get (specCache s) (clock w) sid) = None \<longrightarrow> t0 = clock w)
     \<and> (\<forall>t. t - t0 \<le> cache_ttl (specCache s1) \<longrightarrow>
           loadSpec sid s1 (w1\<lparr>clock := t\<rparr>) = (Inr d, s1, w1\<lparr>clock := t\<rparr>))"
    using t0 again by (intro exI [of _ t0]) simp
qed

theorem loadSpec_examples:
  "loadSpec ''petstore'' service0 world2 =
     (Inr petstore, service2, world2\<lparr>read_log := [''specs/_dereferenced/petstore.json'']\<rparr>)
   \<and> loadSpec ''petstore'' service2
        (world2\<lparr>read_log := [''specs/_dereferenced/petstore.json''], clock := 3600000\<rparr>) =
     (Inr petstore, service2,
      world2\<lparr>read_log := [''specs/_dereferenced/petstore.json''], clock := 3600000\<rparr>)
   \<and> loadSpec ''orders'' service1 world2 = (Inr orders, service1, world2)
   \<and> (\<exists>e s' w'. loadSpec ''missing'' service0 world2 = (Inl e, s', w')
         \<and> code e = Some LOAD_ERROR \<and> cause e = None)
   \<and> (\<exists>e s' w'. loadSpec ''broken'' service0 world2 = (Inl e, s', w')
         \<and> code e = Some LOAD_ERROR \<and> cause e = Some SyntaxError)
   \<and> code (SpecServiceError ''Specification not found: missing'' LOAD_ERROR None) = Some LOAD_ERROR"
proof -
  have miss: "cache_get (specCache service0) (clock world2) sid = (None, specCache service0)" for sid
    by (simp add: cache_get_def service0_eval)
  have first: "loadSpec ''petstore'' service0 world2 =
     (Inr petstore, service2, world2\<lparr>read_log := [''specs/_dereferenced/petstore.json'']\<rparr>)"
    using loadSpec_cache_then_storage [where s = service0 and w = world2 and sid = "''petstore''"
        and d = petstore and c = "specCache service0", THEN conjunct2, THEN conjunct1] miss
    by (simp add: world2_eval service0_eval spec_file_def path_join_def service2_def)
  have ttl: "cache_ttl (specCache service2) = 3600000"
    by (simp add: service2_def cache_set_ttl service0_eval)
  have second: "loadSpec ''petstore'' service2
        (world2\<lparr>read_log := [''specs/_dereferenced/petstore.json''], clock := 3600000\<rparr>) =
     (Inr petstore, service2,
      world2\<lparr>read_log := [''specs/_dereferenced/petstore.json''], clock := 3600000\<rparr>)"
    using loadSpec_cache_then_storage [where s = service0 and w = world2 and sid = "''petstore''"
        and d = petstore and ?s1.0 = service2
        and ?w1.0 = "world2\<lparr>read_log := [''specs/_dereferenced/petstore.json'']\<rparr>"] first miss
    by (auto simp: ttl world2_eval)
  have hit: "cache_get (specCache service1) (clock world2) ''orders'' = (Some orders, specCache service1)"
    by (simp add: cache_get_def service1_cache world2_eval)
  have third: "loadSpec ''orders'' service1 world2 = (Inr orders, service1, world2)"
    using loadSpec_cache_then_storage [where s = service1 and w = world2 and sid = "''orders''"
        and d = orders and c = "specCache service1", THEN conjunct1] hit
    by simp
  have fourth: "\<exists>e s' w'. loadSpec ''missing'' service0 world2 = (Inl e, s', w')
         \<and> code e = Some LOAD_ERROR \<and> cause e = None"
    using loadSpec_cache_then_storage [where s = service0 and w = world2 and sid = "''missing''"
        and c = "specCache service0"] miss
    by (simp add: world2_eval service0_eval spec_file_def path_join_def)
  have fifth: "\<exists>e s' w'. loadSpec ''broken'' service0 world2 = (Inl e, s', w')
         \<and> code e = Some LOAD_ERROR \<and> cause e = Some SyntaxError"
    using loadSpec_cache_then_storage [where s = service0 and w = world2 and sid = "''broken''"
        and c = "specCache service0" and x = SyntaxError] miss
    by (simp add: world2_eval service0_eval spec_file_def path_join_def)
  have nf: "fst (loadSpec ''missing'' service0 world2) =
      Inl (SpecServiceError ''Specification not found: missing'' LOAD_ERROR None)"
    by (simp add: loadSpec_def miss [simplified world2_eval] world2_eval service0_eval spec_file_def
        path_join_def Let_def)
  then have "loadSpec ''missing'' service0 world2 =
      (Inl (SpecServiceError ''Specification not found: missing'' LOAD_ERROR None),
       fst (snd (loadSpec ''missing'' service0 world2)), snd (snd (loadSpec ''missing'' service0 world2)))"
    by (metis prod.collapse)
  from loadSpec_cache_then_storage [where s = service0 and w = world2 and sid = "''missing''"
        and e = "SpecServiceError ''Specification not found: missing'' LOAD_ERROR None"
        and s' = "fst (snd (loadSpec ''missing'' service0 world2))"
        and w' = "snd (snd (loadSpec ''missing'' service0 world2))",
        THEN conjunct2, THEN conjunct2, THEN conjunct2, THEN conjunct2, THEN conjunct1, THEN mp, OF this]
  have sixth: "code (SpecServiceError ''Specification not found: missing'' LOAD_ERROR None) = Some LOAD_ERROR" .
  from first second third fourth fifth sixth show ?thesis by (intro conjI)
qed

subsection \<open>The catalog builder, step by step\<close>

lemma settle_order_set: "set (settle_order rank xs) = set xs"
proof -
  have "set (settle_order rank xs) = snd ` set (enumerate 0 xs)"
    by (simp add: settle_order_def)
  also have "\<dots> = set (map snd (enumerate 0 xs))" by (simp only: set_map)
  also have "\<dots> = set xs" by (simp only: map_snd_enumerate)
  finally show ?thesis .
qed

lemma settle_order_length: "length (settle_order rank xs) = length xs"
  by (simp add: settle_order_def)

lemma saveSpec_frame:
  assumes "saveSpec d sid s w = (r, s', w')"
  shows "catalog s' = catalog s" "folderPath s' = folderPath s" "catalogPath s' = catalogPath s"
    "dereferencedPath s' = dereferencedPath s" "config s' = config s"
    "mkdir_error w' = mkdir_error w" "write_error w' = write_error w" "scan w' = scan w"
    "clock w' = clock w" "catalog_files w' = catalog_files w" "read_log w' = read_log w"
    "save_rank w' = save_rank w" "load_rank w' = load_rank w" "in_flight w' = in_flight w"
  using assms by (auto simp: saveSpec_def split: sum.splits option.splits)

lemma saveSpec_specs:
  assumes "saveSpec d sid s w = (r, s', w')"
  shows "specs s' = (case r of Inl e \<Rightarrow> specs s | Inr u \<Rightarrow> (specs s)(sid \<mapsto> d))"
  using assms by (auto simp: saveSpec_def split: sum.splits option.splits)

lemma run_saves_frame:
  "run_saves ps tc s w = (r, tc', s', w') \<Longrightarrow>
     catalog s' = catalog s \<and> folderPath s' = folderPath s \<and> catalogPath s' = catalogPath s \<and>
     dereferencedPath s' = dereferencedPath s \<and> config s' = config s \<and>
     mkdir_error w' = mkdir_error w \<and> write_error w' = write_error w \<and> scan w' = scan w \<and>
     clock w' = clock w \<and> catalog_files w' = catalog_files w \<and> read_log w' = read_log w \<and>
     save_rank w' = save_rank w \<and> load_rank w' = load_rank w"
proof (induction ps arbitrary: tc s w r tc' s' w')
  case Nil
  then show ?case by simp
next
  case (Cons a ps)
  obtain d entry where a: "a = (d, entry)" by (cases a)
  obtain r1 s1 w1 where s1: "saveSpec d (specId (uri entry)) s w = (r1, s1, w1)"
    by (cases "saveSpec d (specId (uri entry)) s w")
  show ?case
  proof (cases r1)
    case (Inl e)
    with Cons.prems a s1 obtain l where "s' = s1" "w' = w1\<lparr>in_flight := l\<rparr>"
      by auto
    with saveSpec_frame [OF s1] show ?thesis by simp
  next
    case (Inr u)
    with Cons.prems a s1 have rest: "run_saves ps (tc @ [entry]) s1 w1 = (r, tc', s', w')" by simp
    from Cons.IH [OF rest] saveSpec_frame [OF s1] show ?thesis by simp
  qed
qed

lemma run_saves_specs_other:
  "run_saves ps tc s w = (r, tc', s', w') \<Longrightarrow> k \<notin> (\<lambda>(d, e). specId (uri e)) ` set ps \<Longrightarrow>
     specs s' k = specs s k"
proof (induction ps arbitrary: tc s w r tc' s' w')
  case Nil
  then show ?case by simp
next
  case (Cons a ps)
  obtain d entry where a: "a = (d, entry)" by (cases a)
  obtain r1 s1 w1 where s1: "saveSpec d (specId (uri entry)) s w = (r1, s1, w1)"
    by (cases "saveSpec d (specId (uri entry)) s w")
  from Cons.prems(2) a have k: "k \<noteq> specId (uri entry)" "k \<notin> (\<lambda>(d, e). specId (uri e)) ` set ps"
    by auto
  from saveSpec_specs [OF s1] k(1) have same: "specs s1 k = specs s k"
    by (cases r1) auto
  show ?case
  proof (cases r1)
    case (Inl e)
    with Cons.prems a s1 have "s' = s1" by auto
    with same show ?thesis by simp
  next
    case (Inr u)
    with Cons.prems a s1 have rest: "run_saves ps (tc @ [entry]) s1 w1 = (r, tc', s', w')" by simp
    from Cons.IH [OF rest k(2)] same show ?thesis by simp
  qed
qed

lemma run_saves_success:
  "run_saves ps tc s w = (None, tc', s', w') \<Longrightarrow>
     tc' = tc @ map snd ps \<and> dom (specs s') = dom (specs s) \<union> (\<lambda>(d, e). specId (uri e)) ` set ps
     \<and> in_flight w' = in_flight w"
proof (induction ps arbitrary: tc s w tc' s' w')
  case Nil
  then show ?case by simp
next
  case (Cons a ps)
  obtain d entry where a: "a = (d, entry)" by (cases a)
  obtain r1 s1 w1 where s1: "saveSpec d (specId (uri entry)) s w = (r1, s1, w1)"
    by (cases "saveSpec d (specId (uri entry)) s w")
  show ?case
  proof (cases r1)
    case (Inl e)
    with Cons.prems a s1 show ?thesis by simp
  next
    case (Inr u)
    with Cons.prems a s1 have rest: "run_saves ps (tc @ [entry]) s1 w1 = (None, tc', s', w')" by simp
    from saveSpec_specs [OF s1] Inr have "specs s1 = (specs s)(specId (uri entry) \<mapsto> d)" by simp
    with Cons.IH [OF rest] a saveSpec_frame(14) [OF s1] show ?thesis by auto
  qed
qed

lemma run_saves_error_kind:
  "run_saves ps tc s w = (Some e, tc', s', w') \<Longrightarrow> code e = Some PERSIST_ERROR"
proof (induction ps arbitrary: tc s w tc' s' w' e)
  case Nil
  then show ?case by simp
next
  case (Cons a ps)
  obtain d entry where a: "a = (d, entry)" by (cases a)
  obtain r1 s1 w1 where s1: "saveSpec d (specId (uri entry)) s w = (r1, s1, w1)"
    by (cases "saveSpec d (specId (uri entry)) s w")
  show ?case
  proof (cases r1)
    case (Inl x)
    with Cons.prems a s1 have "e = x" by simp
    moreover from s1 Inl have "code x = Some PERSIST_ERROR"
      by (auto simp: saveSpec_def split: sum.splits option.splits)
    ultimately show ?thesis by simp
  next
    case (Inr u)
    with Cons.prems a s1 Cons.IH show ?thesis by simp
  qed
qed

lemma save_all_frame:
  "save_all ps tc s w = (r, tc', s', w') \<Longrightarrow>
     catalog s' = catalog s \<and> folderPath s' = folderPath s \<and> catalogPath s' = catalogPath s \<and>
     dereferencedPath s' = dereferencedPath s \<and> config s' = config s \<and>
     mkdir_error w' = mkdir_error w \<and> write_error w' = write_error w \<and> scan w' = scan w \<and>
     clock w' = clock w \<and> catalog_files w' = catalog_files w \<and> read_log w' = read_log w \<and>
     save_rank w' = save_rank w \<and> load_rank w' = load_rank w"
  unfolding save_all_def by (rule run_saves_frame)

lemma ids_settle_order:
  "(\<lambda>(d, e). specId (uri e)) ` set (settle_order rank ps) = (\<lambda>(d, e). specId (uri e)) ` set ps"
  by (simp add: settle_order_set)

lemma save_all_specs_other:
  "save_all ps tc s w = (r, tc', s', w') \<Longrightarrow> k \<notin> (\<lambda>(d, e). specId (uri e)) ` set ps \<Longrightarrow>
     specs s' k = specs s k"
  unfolding save_all_def using run_saves_specs_other [of "settle_order (save_rank w) ps"]
  by (simp add: settle_order_set)

lemma save_all_success:
  "save_all ps tc s w = (None, tc', s', w') \<Longrightarrow>
     tc' = tc @ map snd (settle_order (save_rank w) ps)
     \<and> dom (specs s') = dom (specs s) \<union> (\<lambda>(d, e). specId (uri e)) ` set ps
     \<and> in_flight w' = in_flight w"
  unfolding save_all_def using run_saves_success [of "settle_order (save_rank w) ps"]
  by (simp add: settle_order_set)

lemma save_all_error_kind:
  "save_all ps tc s w = (Some e, tc', s', w') \<Longrightarrow> code e = Some PERSIST_ERROR"
  unfolding save_all_def by (rule run_saves_error_kind)

lemma make_entry_id: "make_entry d sid = Inr e \<Longrightarrow> specId (uri e) = sid"
  by (auto simp: make_entry_def split: sum.splits)

lemma scan_loop_append: "scan_loop rs pending = pending @ scan_loop rs []"
proof (induction rs arbitrary: pending)
  case Nil
  then show ?case by simp
next
  case (Cons r rs)
  show ?case
  proof (cases "error r")
    case None
    show ?thesis
    proof (cases "make_entry (spec r) (scan_specId r)")
      case (Inl e)
      with None Cons [of pending] show ?thesis by simp
    next
      case (Inr entry)
      with None Cons [of "pending @ [(spec r, entry)]"] Cons [of "[(spec r, entry)]"]
      show ?thesis by simp
    qed
  next
    case (Some e)
    with Cons [of pending] show ?thesis by simp
  qed
qed

lemma scan_loop_skips_errors: "scan_loop rs pending = scan_loop (filter (\<lambda>r. error r = None) rs) pending"
  by (induction rs arbitrary: pending) (auto split: option.splits sum.splits)

lemma scan_loop_ids:
  "map (\<lambda>(d, e). specId (uri e)) (scan_loop rs []) = map scan_specId (filter accepted rs)"
proof (induction rs)
  case Nil
  then show ?case by simp
next
  case (Cons r rs)
  show ?case
  proof (cases "error r")
    case None
    show ?thesis
    proof (cases "make_entry (spec r) (scan_specId r)")
      case (Inl e)
      with None Cons show ?thesis by (simp add: accepted_def)
    next
      case (Inr entry)
      with None Cons scan_loop_append [of rs "[(spec r, entry)]"] make_entry_id [OF Inr]
      show ?thesis by (simp add: accepted_def)
    qed
  next
    case (Some e)
    with Cons show ?thesis by (simp add: accepted_def)
  qed
qed

lemma scanAndSave_failure:
  assumes "scanAndSave dir s w = (Inl e, s', w')"
  shows "\<exists>x. e = SpecServiceError ''Failed to scan and persist specifications'' SCAN_ERROR (Some x)"
    and "catalog s' = catalog s"
proof -
  obtain rs x where sc: "scan w dir = (rs, x)" by (cases "scan w dir")
  have "(\<exists>x. e = SpecServiceError ''Failed to scan and persist specifications'' SCAN_ERROR (Some x))
    \<and> catalog s' = catalog s"
  proof (cases x)
    case (Some y)
    with sc assms show ?thesis by (auto simp: scanAndSave_def scan_error_def)
  next
    case None
    show ?thesis
    proof (cases "ensureDirectories s w")
      case (Inl y)
      with sc None assms show ?thesis by (auto simp: scanAndSave_def scan_error_def)
    next
      case (Inr u)
      obtain r tc s1 w1 where sa: "save_all (scan_loop rs []) [] s w = (r, tc, s1, w1)"
        by (cases "save_all (scan_loop rs []) [] s w")
      from save_all_frame [OF sa] have c: "catalog s1 = catalog s" by simp
      show ?thesis
      proof (cases r)
        case (Some y)
        with sc None Inr sa assms c show ?thesis by (auto simp: scanAndSave_def scan_error_def)
      next
        case None': None
        obtain r2 w2 where sv: "saveSpecCatalog tc s1 w1 = (r2, w2)" by (cases "saveSpecCatalog tc s1 w1")
        with sc None Inr sa None' assms c show ?thesis
          by (cases r2) (auto simp: scanAndSave_def scan_error_def)
      qed
    qed
  qed
  then show "\<exists>x. e = SpecServiceError ''Failed to scan and persist specifications'' SCAN_ERROR (Some x)"
    and "catalog s' = catalog s" by simp_all
qed

lemma saveSpecCatalog_in_flight:
  "saveSpecCatalog tc s w = (r, w') \<Longrightarrow> in_flight w' = in_flight w"
  by (auto simp: saveSpecCatalog_def split: option.splits if_splits)

lemma scanAndSave_success:
  assumes "scanAndSave dir s w = (Inr u, s', w')"
  shows "\<exists>rs. scan w dir = (rs, None)
     \<and> catalog s' = map snd (settle_order (save_rank w) (scan_loop rs []))
     \<and> dom (specs s') = dom (specs s) \<union> scan_specId ` set (filter accepted rs)
     \<and> (\<forall>k. k \<notin> scan_specId ` set (filter accepted rs) \<longrightarrow> specs s' k = specs s k)
     \<and> folderPath s' = folderPath s \<and> in_flight w' = in_flight w"
proof -
  obtain rs x where sc: "scan w dir = (rs, x)" by (cases "scan w dir")
  with assms have x: "x = None" by (cases x) (auto simp: scanAndSave_def)
  from sc x assms obtain v where ed: "ensureDirectories s w = Inr v"
    by (cases "ensureDirectories s w") (auto simp: scanAndSave_def)
  obtain r tc s1 w1 where sa: "save_all (scan_loop rs []) [] s w = (r, tc, s1, w1)"
    by (cases "save_all (scan_loop rs []) [] s w")
  from sc x ed sa assms have r: "r = None" by (cases r) (auto simp: scanAndSave_def)
  obtain r2 w2 where sv: "saveSpecCatalog tc s1 w1 = (r2, w2)" by (cases "saveSpecCatalog tc s1 w1")
  from sc x ed sa r sv assms have s': "s' = s1\<lparr>catalog := tc\<rparr>" and w': "w' = w2"
    by (cases r2; auto simp: scanAndSave_def)+
  have ids: "(\<lambda>(d, e). specId (uri e)) ` set (scan_loop rs []) = scan_specId ` set (filter accepted rs)"
    using scan_loop_ids [of rs] by (metis set_map)
  from sa r save_all_success [of "scan_loop rs []" "[]" s w tc s1 w1]
  have "tc = map snd (settle_order (save_rank w) (scan_loop rs []))"
    "dom (specs s1) = dom (specs s) \<union> (\<lambda>(d, e). specId (uri e)) ` set (scan_loop rs [])"
    "in_flight w1 = in_flight w" by simp_all
  moreover have "\<forall>k. k \<notin> (\<lambda>(d, e). specId (uri e)) ` set (scan_loop rs []) \<longrightarrow> specs s1 k = specs s k"
    using save_all_specs_other [OF sa] by blast
  moreover from save_all_frame [OF sa] have "folderPath s1 = folderPath s" by simp
  moreover from saveSpecCatalog_in_flight [OF sv] w' have "in_flight w' = in_flight w1" by simp
  ultimately show ?thesis using sc x s' ids by simp
qed

lemma catalog_ids_of_pending:
  "(\<lambda>e. specId (uri e)) ` set (map snd ps) = (\<lambda>(d, e). specId (uri e)) ` set ps"
  by (induction ps) auto

lemma scanAndSave_catalog_ids:
  assumes "scanAndSave dir s w = (Inr u, s', w')" "scan w dir = (rs, x)"
  shows "(\<lambda>e. specId (uri e)) ` set (catalog s') = scan_specId ` set (filter accepted rs)"
    and "length (catalog s') = length (filter accepted rs)"
    and "dom (specs s') = dom (specs s) \<union> (\<lambda>e. specId (uri e)) ` set (catalog s')"
    and "k \<notin> (\<lambda>e. specId (uri e)) ` set (catalog s') \<Longrightarrow> specs s' k = specs s k"
proof -
  from scanAndSave_success [OF assms(1)] assms(2)
  have c: "catalog s' = map snd (settle_order (save_rank w) (scan_loop rs []))"
    and d: "dom (specs s') = dom (specs s) \<union> scan_specId ` set (filter accepted rs)"
    and o: "\<forall>k. k \<notin> scan_specId ` set (filter accepted rs) \<longrightarrow> specs s' k = specs s k"
    by auto
  have "(\<lambda>e. specId (uri e)) ` set (catalog s') =
      (\<lambda>(d, e). specId (uri e)) ` set (settle_order (save_rank w) (scan_loop rs []))"
    unfolding c by (rule catalog_ids_of_pending)
  also have "\<dots> = (\<lambda>(d, e). specId (uri e)) ` set (scan_loop rs [])"
    by (rule ids_settle_order)
  also have "\<dots> = scan_specId ` set (filter accepted rs)"
    using scan_loop_ids [of rs] by (metis set_map)
  finally show ids: "(\<lambda>e. specId (uri e)) ` set (catalog s') = scan_specId ` set (filter accepted rs)" .
  from c have "length (catalog s') = length (scan_loop rs [])"
    by (simp add: settle_order_length)
  also have "\<dots> = length (filter accepted rs)"
    using scan_loop_ids [of rs] by (metis length_map)
  finally show "length (catalog s') = length (filter accepted rs)" .
  from ids d o show "dom (specs s') = dom (specs s) \<union> (\<lambda>e. specId (uri e)) ` set (catalog s')"
    and "k \<notin> (\<lambda>e. specId (uri e)) ` set (catalog s') \<Longrightarrow> specs s' k = specs s k"
    by simp_all
qed

text \<open>The scanner is read once, at the start of the build.\<close>

lemma saveSpec_scan_irrelevant:
  "saveSpec d sid s (w\<lparr>scan := f\<rparr>) =
     (case saveSpec d sid s w of (r, s', w') \<Rightarrow> (r, s', w'\<lparr>scan := f\<rparr>))"
  by (simp add: saveSpec_def ensureDirectory_def split: option.splits)

lemma run_saves_scan_irrelevant:
  "run_saves ps tc s (w\<lparr>scan := f\<rparr>) =
     (case run_saves ps tc s w of (r, tc', s', w') \<Rightarrow> (r, tc', s', w'\<lparr>scan := f\<rparr>))"
proof (induction ps arbitrary: tc s w)
  case Nil
  then show ?case by simp
next
  case (Cons a ps)
  obtain d entry where a: "a = (d, entry)" by (cases a)
  obtain r1 s1 w1 where s1: "saveSpec d (specId (uri entry)) s w = (r1, s1, w1)"
    by (cases "saveSpec d (specId (uri entry)) s w")
  show ?case
    using a s1 Cons [of _ s1 w1]
    by (cases r1) (simp_all add: saveSpec_scan_irrelevant save_succeeds_def split: prod.splits)
qed

lemma save_all_scan_irrelevant:
  "save_all ps tc s (w\<lparr>scan := f\<rparr>) =
     (case save_all ps tc s w of (r, tc', s', w') \<Rightarrow> (r, tc', s', w'\<lparr>scan := f\<rparr>))"
  by (simp add: save_all_def run_saves_scan_irrelevant)

lemma scanAndSave_same_pending:
  assumes "scan_loop rs [] = scan_loop rs' []"
  shows "fst (scanAndSave dir s (w\<lparr>scan := (\<lambda>d. (rs, None))\<rparr>)) =
         fst (scanAndSave dir s (w\<lparr>scan := (\<lambda>d. (rs', None))\<rparr>))
       \<and> fst (snd (scanAndSave dir s (w\<lparr>scan := (\<lambda>d. (rs, None))\<rparr>))) =
         fst (snd (scanAndSave dir s (w\<lparr>scan := (\<lambda>d. (rs', None))\<rparr>)))"
proof -
  have e1: "ensureDirectory (w\<lparr>scan := f\<rparr>) d = ensureDirectory w d" for f d
    by (simp add: ensureDirectory_def)
  have ed: "ensureDirectories s (w\<lparr>scan := f\<rparr>) = ensureDirectories s w" for f
    by (simp add: ensureDirectories_def e1 cong: sum.case_cong)
  have sc: "saveSpecCatalog tc s1 (w1\<lparr>scan := f\<rparr>) =
      (case saveSpecCatalog tc s1 w1 of (r, w2) \<Rightarrow> (r, w2\<lparr>scan := f\<rparr>))" for tc s1 w1 f
    by (simp add: saveSpecCatalog_def split: option.splits)
  show ?thesis
    using assms
    by (simp add: scanAndSave_def Let_def ed sc save_all_scan_irrelevant
        split: sum.splits prod.splits option.splits)
qed

subsection \<open>The lifecycle, step by step\<close>

text \<open>A batch of one load is \<^verbatim>\<open>loadSpec\<close>, and a save that lands is a \<^verbatim>\<open>saveSpec\<close> that succeeds.\<close>

lemma load_all_single:
  "load_all [sid] s w =
     (case loadSpec sid s w of
        (Inl e, s', w') \<Rightarrow> (Inl e, s', w')
      | (Inr d, s', w') \<Rightarrow> (Inr [d], s', w'))"
  by (simp add: load_all_def loadSpec_def read_file_def settle_order_def Let_def
      split: prod.splits option.splits stored.splits)

lemma land_save:
  "save_succeeds s w sid \<Longrightarrow> saveSpec d sid s w = (Inr (), land (SaveLanding sid d) s w)"
  by (simp add: save_succeeds_def saveSpec_def ensureDirectory_def)

lemma start_loads_frame:
  "start_loads sids s w = (ts, s', w') \<Longrightarrow>
    specs s' = specs s \<and> catalog s' = catalog s \<and> folderPath s' = folderPath s \<and>
    catalogPath s' = catalogPath s \<and> dereferencedPath s' = dereferencedPath s \<and> config s' = config s \<and>
    mkdir_error w' = mkdir_error w \<and> write_error w' = write_error w \<and> scan w' = scan w \<and>
    clock w' = clock w \<and> catalog_files w' = catalog_files w \<and> spec_files w' = spec_files w \<and>
    save_rank w' = save_rank w \<and> load_rank w' = load_rank w \<and> in_flight w' = in_flight w \<and>
    map fst ts = sids"
proof (induction sids arbitrary: s w ts s' w')
  case Nil
  then show ?case by simp
next
  case (Cons sid sids)
  obtain r c where g: "cache_get (specCache s) (clock w) sid = (r, c)"
    by (cases "cache_get (specCache s) (clock w) sid")
  show ?case
  proof (cases r)
    case None
    let ?w = "w\<lparr>read_log := spec_file s sid # read_log w\<rparr>"
    obtain ts1 s1 w1 where st: "start_loads sids (s\<lparr>specCache := c\<rparr>) ?w = (ts1, s1, w1)"
      by (cases "start_loads sids (s\<lparr>specCache := c\<rparr>) ?w")
    from Cons.prems g None st have "ts = (sid, read_file s w sid) # ts1" "s' = s1" "w' = w1"
      by simp_all
    with Cons.IH [OF st] show ?thesis by simp
  next
    case (Some d)
    obtain ts1 s1 w1 where st: "start_loads sids (s\<lparr>specCache := c\<rparr>) w = (ts1, s1, w1)"
      by (cases "start_loads sids (s\<lparr>specCache := c\<rparr>) w")
    from Cons.prems g Some st have "ts = (sid, Cached d) # ts1" "s' = s1" "w' = w1"
      by simp_all
    with Cons.IH [OF st] show ?thesis by simp
  qed
qed

lemma finish_loads_frame:
  "finish_loads ts s w = (r, s', w') \<Longrightarrow>
    specs s' = specs s \<and> catalog s' = catalog s \<and> folderPath s' = folderPath s \<and>
    catalogPath s' = catalogPath s \<and> dereferencedPath s' = dereferencedPath s \<and> config s' = config s \<and>
    mkdir_error w' = mkdir_error w \<and> write_error w' = write_error w \<and> scan w' = scan w \<and>
    clock w' = clock w \<and> catalog_files w' = catalog_files w \<and> spec_files w' = spec_files w \<and>
    save_rank w' = save_rank w \<and> load_rank w' = load_rank w \<and>
    (list_all is_load (in_flight w) \<longrightarrow> list_all is_load (in_flight w'))"
proof (induction ts s w arbitrary: r s' w' rule: finish_loads.induct)
  case (1 s w)
  then show ?case by simp
next
  case (2 sid d rest s w)
  from "2.prems" have "finish_loads rest s w = (r, s', w')" by simp
  from "2.IH" [OF this] show ?case .
next
  case (3 sid d rest s w)
  let ?s = "s\<lparr>specCache := cache_set (specCache s) (clock w) sid d\<rparr>"
  from "3.prems" have "finish_loads rest ?s w = (r, s', w')" by simp
  from "3.IH" [OF this] show ?case by simp
next
  case (4 sid e rest s w)
  have "list_all is_load
     (concat (map (\<lambda>(sid', outcome). case outcome of Fetched d' \<Rightarrow> [LoadLanding sid' d'] | _ \<Rightarrow> []) rest))"
    by (induction rest) (auto split: load_outcome.splits)
  moreover from "4.prems" have "s' = s"
    "w' = w\<lparr>in_flight := in_flight w @
           concat (map (\<lambda>(sid', outcome). case outcome of Fetched d' \<Rightarrow> [LoadLanding sid' d'] | _ \<Rightarrow> []) rest)\<rparr>"
    by simp_all
  ultimately show ?case by simp
qed

lemma finish_loads_None:
  "finish_loads ts s w = (None, s', w') \<Longrightarrow> (sid, Failing e) \<notin> set ts"
  by (induction ts s w arbitrary: s' w' rule: finish_loads.induct) simp_all

lemma loaded_documents_length:
  "(\<And>sid e. (sid, Failing e) \<notin> set ts) \<Longrightarrow> length (loaded_documents ts) = length ts"
  by (induction ts rule: loaded_documents.induct) auto

lemma load_all_frame:
  assumes "load_all sids s w = (r, s', w')"
  shows "specs s' = specs s \<and> catalog s' = catalog s \<and> folderPath s' = folderPath s \<and>
    catalogPath s' = catalogPath s \<and> dereferencedPath s' = dereferencedPath s \<and> config s' = config s \<and>
    mkdir_error w' = mkdir_error w \<and> write_error w' = write_error w \<and> scan w' = scan w \<and>
    clock w' = clock w \<and> catalog_files w' = catalog_files w \<and> spec_files w' = spec_files w \<and>
    save_rank w' = save_rank w \<and> load_rank w' = load_rank w \<and>
    (list_all is_load (in_flight w) \<longrightarrow> list_all is_load (in_flight w'))"
proof -
  obtain ts s1 w1 where st: "start_loads sids s w = (ts, s1, w1)"
    by (cases "start_loads sids s w")
  obtain r2 s2 w2 where fi: "finish_loads (settle_order (load_rank w1) ts) s1 w1 = (r2, s2, w2)"
    by (cases "finish_loads (settle_order (load_rank w1) ts) s1 w1")
  from assms st fi have "s' = s2" "w' = w2"
    by (cases r2; simp add: load_all_def)+
  with start_loads_frame [OF st] finish_loads_frame [OF fi] show ?thesis by simp
qed

lemma load_all_length:
  assumes "load_all sids s w = (Inr ds, s', w')"
  shows "length ds = length sids"
proof -
  obtain ts s1 w1 where st: "start_loads sids s w = (ts, s1, w1)"
    by (cases "start_loads sids s w")
  obtain r2 s2 w2 where fi: "finish_loads (settle_order (load_rank w1) ts) s1 w1 = (r2, s2, w2)"
    by (cases "finish_loads (settle_order (load_rank w1) ts) s1 w1")
  from assms st fi have r2: "r2 = None" and ds: "ds = loaded_documents ts"
    by (cases r2; simp add: load_all_def)+
  from fi r2 have "(sid, Failing e) \<notin> set ts" for sid e
    using finish_loads_None [of "settle_order (load_rank w1) ts" s1 w1 s2 w2 sid e]
    by (simp add: settle_order_set)
  then have "length (loaded_documents ts) = length ts"
    by (rule loaded_documents_length)
  moreover from start_loads_frame [OF st] have "length ts = length sids"
    by (metis length_map)
  ultimately show ?thesis using ds by simp
qed

lemma store_loaded_frame:
  "catalog (store_loaded xs now s) = catalog s \<and> folderPath (store_loaded xs now s) = folderPath s \<and>
   catalogPath (store_loaded xs now s) = catalogPath s \<and>
   dereferencedPath (store_loaded xs now s) = dereferencedPath s \<and>
   config (store_loaded xs now s) = config s"
  by (induction xs now s rule: store_loaded.induct) auto

lemma store_loaded_dom: "dom (specs (store_loaded xs now s)) = dom (specs s) \<union> fst ` set xs"
  by (induction xs now s rule: store_loaded.induct) auto

lemma loadSpecCatalog_frame:
  "loadSpecCatalog s w = (r, w') \<Longrightarrow>
    mkdir_error w' = mkdir_error w \<and> write_error w' = write_error w \<and> scan w' = scan w \<and>
    clock w' = clock w \<and> catalog_files w' = catalog_files w \<and> spec_files w' = spec_files w \<and>
    save_rank w' = save_rank w \<and> load_rank w' = load_rank w \<and> in_flight w' = in_flight w"
  by (auto simp: loadSpecCatalog_def Let_def split: option.splits stored.splits if_splits)

lemma loadExistingCatalog_specs:
  assumes "loadExistingCatalog s w = (loaded, s1, w1)"
  shows "if loaded
         then \<exists>c wc. loadSpecCatalog s w = (Inr c, wc) \<and> catalog s1 = c \<and>
                dom (specs s1) = dom (specs s) \<union> (\<lambda>e. specId (uri e)) ` set c
         else specs s1 = Map.empty \<and> catalog s1 = []"
    and "folderPath s1 = folderPath s" and "scan w1 = scan w"
    and "list_all is_load (in_flight w) \<Longrightarrow> list_all is_load (in_flight w1)"
proof -
  obtain r wc where lc: "loadSpecCatalog s w = (r, wc)" by (cases "loadSpecCatalog s w")
  note fc = loadSpecCatalog_frame [OF lc]
  have "(if loaded
         then \<exists>c wc. loadSpecCatalog s w = (Inr c, wc) \<and> catalog s1 = c \<and>
                dom (specs s1) = dom (specs s) \<union> (\<lambda>e. specId (uri e)) ` set c
         else specs s1 = Map.empty \<and> catalog s1 = [])
       \<and> folderPath s1 = folderPath s \<and> scan w1 = scan w
       \<and> (list_all is_load (in_flight w) \<longrightarrow> list_all is_load (in_flight w1))"
  proof (cases r)
    case (Inl e)
    with lc assms fc show ?thesis by (auto simp: loadExistingCatalog_def resetState_def)
  next
    case (Inr c)
    let ?sids = "map (\<lambda>entry. specId (uri entry)) c"
    obtain r2 s2 w2 where la: "load_all ?sids (s\<lparr>catalog := c\<rparr>) wc = (r2, s2, w2)"
      by (cases "load_all ?sids (s\<lparr>catalog := c\<rparr>) wc")
    from load_all_frame [OF la] fc
    have f: "specs s2 = specs s" "catalog s2 = c" "folderPath s2 = folderPath s" "scan w2 = scan w"
      "list_all is_load (in_flight w) \<longrightarrow> list_all is_load (in_flight w2)"
      by simp_all
    show ?thesis
    proof (cases r2)
      case (Inl e)
      with lc Inr la assms f show ?thesis by (auto simp: loadExistingCatalog_def Let_def resetState_def)
    next
      case Inr2: (Inr ds)
      from la Inr2 load_all_length have len: "length ds = length ?sids" by blast
      from lc Inr la Inr2 assms have l: "loaded" and s1: "s1 = store_loaded (zip ?sids ds) (clock w2) s2"
        and w1: "w1 = w2"
        by (auto simp: loadExistingCatalog_def Let_def)
      from len have "fst ` set (zip ?sids ds) = set ?sids"
        by (metis map_fst_zip set_map)
      with s1 f store_loaded_dom [of "zip ?sids ds" "clock w2" s2] store_loaded_frame [of "zip ?sids ds" "clock w2" s2]
      have "catalog s1 = c" "dom (specs s1) = dom (specs s) \<union> (\<lambda>e. specId (uri e)) ` set c"
        "folderPath s1 = folderPath s"
        by auto
      with l lc Inr f w1 show ?thesis by simp
    qed
  qed
  then show "if loaded
         then \<exists>c wc. loadSpecCatalog s w = (Inr c, wc) \<and> catalog s1 = c \<and>
                dom (specs s1) = dom (specs s) \<union> (\<lambda>e. specId (uri e)) ` set c
         else specs s1 = Map.empty \<and> catalog s1 = []"
    and "folderPath s1 = folderPath s" and "scan w1 = scan w"
    and "list_all is_load (in_flight w) \<Longrightarrow> list_all is_load (in_flight w1)"
    by (auto split: if_splits)
qed

lemma resetState_empty:
  "catalog (resetState s) = [] \<and> specs (resetState s) = Map.empty \<and> entries (specCache (resetState s)) = []"
  by (simp add: resetState_def cache_clear_def)

lemma initialize_failure:
  assumes "initialize s w = (Inl e, s', w')"
  shows "(\<exists>x. e = SpecServiceError ''Failed to initialize FileSystemSpecService'' INIT_ERROR (Some x))
    \<and> catalog s' = [] \<and> specs s' = Map.empty \<and> entries (specCache s') = []"
proof (cases "ensureDirectories s w")
  case (Inl x)
  with assms show ?thesis by (auto simp: initialize_def init_error_def resetState_empty)
next
  case (Inr u)
  obtain loaded s1 w1 where le: "loadExistingCatalog s w = (loaded, s1, w1)"
    by (cases "loadExistingCatalog s w")
  obtain r s2 w2 where sc: "scanAndSave (folderPath s1) s1 w1 = (r, s2, w2)"
    by (cases "scanAndSave (folderPath s1) s1 w1")
  with Inr le assms show ?thesis
    by (cases r) (auto simp: initialize_def init_error_def resetState_empty)
qed

lemma empty_state_queries:
  assumes "catalog s = []" "specs s = Map.empty"
  shows "getApiCatalog s = [] \<and> searchOperations s q sid = [] \<and> findOperationById s i oid = Inr None
    \<and> findOperationByPathAndMethod rt s i p m = (if inherited_key i then Inl TypeError else Inr None)
    \<and> findSchemaByName s i n = Inr None
    \<and> schema_candidates (targetSpecs s sid) [] = []"
  using assms
  by (auto simp: getApiCatalog_def searchOperations_def targetSpecs_def findOperationById_def
      findOperationByPathAndMethod_def findSchemaByName_def get_prop_def split: option.splits)

text \<open>Loads that land change the cache only.\<close>

lemma land_all_loads:
  "list_all is_load ls \<Longrightarrow>
     specs (fst (land_all ls s w)) = specs s \<and> catalog (fst (land_all ls s w)) = catalog s"
proof (induction ls arbitrary: s w)
  case Nil
  then show ?case by simp
next
  case (Cons l ls)
  then show ?case by (cases l) simp_all
qed

section \<open>Builds\<close>

subsection \<open>A build whose commit phase fails\<close>

text \<open>
  Claim C1, at a failing input. The service holds the catalog and the documents of a
  first build. A second build scans another document under the id \<^verbatim>\<open>petstore\<close>; its
  \<^verbatim>\<open>saveSpec\<close> succeeds, and then the write of the catalog file fails. The build fails
  with \<^verbatim>\<open>SCAN_ERROR\<close> and the catalog is the one of the first build, but the SpecStore
  is not: \<^verbatim>\<open>saveSpec\<close> has already put the new document under \<^verbatim>\<open>petstore\<close>. (That every
  failure of \<^verbatim>\<open>scanAndSave\<close> is a \<^verbatim>\<open>SCAN_ERROR\<close> and leaves the catalog as it was is
  \<open>scanAndSave_failure\<close>.)
\<close>

theorem scanAndSave_failed_commit_changes_SpecStore:
  "fst (scanAndSave ''specs'' service1 world_unwritable) =
     Inl (SpecServiceError ''Failed to scan and persist specifications'' SCAN_ERROR
            (Some (ErrnoException ''EACCES'')))
   \<and> catalog (fst (snd (scanAndSave ''specs'' service1 world_unwritable))) = catalog service1
   \<and> specs service1 ''petstore'' = Some petstore
   \<and> specs (fst (snd (scanAndSave ''specs'' service1 world_unwritable))) ''petstore'' = Some sparse"
  by (simp add: scanAndSave_def world_unwritable_def world2_files service1_eval service1_specs
      scanned_def sparse_def listPets_def make_entry_def structural_key_def extract_schemas_def
      ensureDirectories_def ensureDirectory_def saveSpec_def saveSpecCatalog_def catalog_file_def
      spec_file_def path_join_def scan_error_def save_all_def settle_order_def Let_def)

subsection \<open>Scan results with an error\<close>

lemma filter_one_of_three:
  assumes "length rs = 3" "length (filter (\<lambda>r. \<not> P r) rs) = 1"
  shows "length (filter P rs) = 2"
  using assms sum_length_filter_compl [of P rs] by simp

lemma build_orders_failed:
  "fst (scanAndSave ''specs'' service1 world_orders_failed) = Inr ()"
  "map specId (map uri (catalog (fst (snd (scanAndSave ''specs'' service1 world_orders_failed))))) =
     [''petstore'', ''sparse'']"
  "specs (fst (snd (scanAndSave ''specs'' service1 world_orders_failed))) ''orders'' = Some orders"
  by (simp_all add: scanAndSave_def world_orders_failed_def world2_files service1_eval service1_specs
      scanned_def scan_failed_def petstore_def listPets_def createPet_def untitled_def
      sparse_def make_entry_def structural_key_def extract_schemas_def
      ensureDirectories_def ensureDirectory_def saveSpec_def saveSpecCatalog_def catalog_file_def
      spec_file_def path_join_def scan_error_def save_all_def settle_order_def Let_def)

text \<open>
  Claim C7, as stated, at a concrete input. The service holds the documents \<^verbatim>\<open>petstore\<close>
  and \<^verbatim>\<open>orders\<close> of a first build. A second build scans three documents, of which the
  one of \<^verbatim>\<open>orders\<close> has \<^verbatim>\<open>error\<close> set. The build succeeds and its catalog has the two
  other entries, but the failing document is not absent from the SpecStore: the
  document that the first build stored under \<^verbatim>\<open>orders\<close> is still there.
\<close>

theorem scanAndSave_failing_document_still_stored:
  "map scan_specId (fst (scan world_orders_failed ''specs'')) = [''petstore'', ''orders'', ''sparse'']
   \<and> map error (fst (scan world_orders_failed ''specs'')) = [None, Some SyntaxError, None]
   \<and> fst (scanAndSave ''specs'' service1 world_orders_failed) = Inr ()
   \<and> map specId (map uri (catalog (fst (snd (scanAndSave ''specs'' service1 world_orders_failed))))) =
       [''petstore'', ''sparse'']
   \<and> specs (fst (snd (scanAndSave ''specs'' service1 world_orders_failed))) ''orders'' = Some orders"
  by (intro conjI build_orders_failed) (simp_all add: world_orders_failed_def scanned_def scan_failed_def)

text \<open>
  Claim C7, amended. A scan result with \<^verbatim>\<open>error\<close> set is skipped and does not abort the
  build: for every sequence of scan results, the outcome of the build and the service
  after it are those of the build over the sequence without the results that have
  \<^verbatim>\<open>error\<close> set. And when a build over three scan results with distinct ids, exactly
  one of which has \<^verbatim>\<open>error\<close> set and the two others of which extract, succeeds (started
  while nothing is in flight), then the catalog has exactly 2 entries, with the ids of
  the two others; the id of the failing document is not in the catalog, and the build
  neither puts anything under it in the SpecStore nor removes what is there: the
  SpecStore holds under that id what it held before the build.
\<close>

theorem scanAndSave_skips_scan_errors:
  "fst (scanAndSave dir s (w\<lparr>scan := (\<lambda>d. (rs, None))\<rparr>)) =
     fst (scanAndSave dir s (w\<lparr>scan := (\<lambda>d. (filter (\<lambda>r. error r = None) rs, None))\<rparr>))
   \<and> fst (snd (scanAndSave dir s (w\<lparr>scan := (\<lambda>d. (rs, None))\<rparr>))) =
     fst (snd (scanAndSave dir s (w\<lparr>scan := (\<lambda>d. (filter (\<lambda>r. error r = None) rs, None))\<rparr>)))
   \<and> (in_flight w = [] \<and> scan w dir = (rs, None) \<and> length rs = 3
       \<and> length (filter (\<lambda>r. error r \<noteq> None) rs) = 1
       \<and> (\<forall>r\<in>set rs. error r = None \<longrightarrow> (\<exists>e. make_entry (spec r) (scan_specId r) = Inr e))
       \<and> distinct (map scan_specId rs)
       \<and> scanAndSave dir s w = (Inr (), s', w')
      \<longrightarrow> length (catalog s') = 2
          \<and> (\<lambda>e. specId (uri e)) ` set (catalog s') = scan_specId ` set (filter (\<lambda>r. error r = None) rs)
          \<and> (\<forall>bad\<in>set rs. error bad \<noteq> None \<longrightarrow>
                scan_specId bad \<notin> (\<lambda>e. specId (uri e)) ` set (catalog s')
                \<and> specs s' (scan_specId bad) = specs s (scan_specId bad)))"
proof (intro conjI impI)
  have same: "scan_loop rs [] = scan_loop (filter (\<lambda>r. error r = None) rs) []"
    by (rule scan_loop_skips_errors)
  from scanAndSave_same_pending [OF same, of dir s w]
  show "fst (scanAndSave dir s (w\<lparr>scan := (\<lambda>d. (rs, None))\<rparr>)) =
     fst (scanAndSave dir s (w\<lparr>scan := (\<lambda>d. (filter (\<lambda>r. error r = None) rs, None))\<rparr>))"
    and "fst (snd (scanAndSave dir s (w\<lparr>scan := (\<lambda>d. (rs, None))\<rparr>))) =
     fst (snd (scanAndSave dir s (w\<lparr>scan := (\<lambda>d. (filter (\<lambda>r. error r = None) rs, None))\<rparr>)))"
    by simp_all
next
  assume h: "in_flight w = [] \<and> scan w dir = (rs, None) \<and> length rs = 3
       \<and> length (filter (\<lambda>r. error r \<noteq> None) rs) = 1
       \<and> (\<forall>r\<in>set rs. error r = None \<longrightarrow> (\<exists>e. make_entry (spec r) (scan_specId r) = Inr e))
       \<and> distinct (map scan_specId rs)
       \<and> scanAndSave dir s w = (Inr (), s', w')"
  then have acc: "filter accepted rs = filter (\<lambda>r. error r = None) rs"
    by (intro filter_cong) (auto simp: accepted_def split: sum.splits)
  from h have b: "scanAndSave dir s w = (Inr (), s', w')" and sc: "scan w dir = (rs, None)"
    by simp_all
  from scanAndSave_catalog_ids(1) [OF b sc] acc
  have ids: "(\<lambda>e. specId (uri e)) ` set (catalog s') = scan_specId ` set (filter (\<lambda>r. error r = None) rs)"
    by simp
  from scanAndSave_catalog_ids(2) [OF b sc] acc
  have len': "length (catalog s') = length (filter (\<lambda>r. error r = None) rs)"
    by simp
  have other: "specs s' k = specs s k" if "k \<notin> (\<lambda>e. specId (uri e)) ` set (catalog s')" for k
    using scanAndSave_catalog_ids(4) [OF b sc that] .
  from h have "length (filter (\<lambda>r. error r = None) rs) = 2"
    using filter_one_of_three [of rs "\<lambda>r. error r = None"] by simp
  with len' have len: "length (catalog s') = 2" by simp
  have absent: "scan_specId bad \<notin> (\<lambda>e. specId (uri e)) ` set (catalog s')"
    if "bad \<in> set rs" "error bad \<noteq> None" for bad
  proof
    assume "scan_specId bad \<in> (\<lambda>e. specId (uri e)) ` set (catalog s')"
    with ids obtain r where r: "r \<in> set rs" "error r = None" "scan_specId r = scan_specId bad" by auto
    from h have "inj_on scan_specId (set rs)" by (simp add: distinct_map)
    with r that(1) have "r = bad" by (auto dest: inj_onD)
    with r that(2) show False by simp
  qed
  from len show "length (catalog s') = 2" .
  from ids show "(\<lambda>e. specId (uri e)) ` set (catalog s') = scan_specId ` set (filter (\<lambda>r. error r = None) rs)" .
  from absent other
  show "\<forall>bad\<in>set rs. error bad \<noteq> None \<longrightarrow>
          scan_specId bad \<notin> (\<lambda>e. specId (uri e)) ` set (catalog s')
          \<and> specs s' (scan_specId bad) = specs s (scan_specId bad)"
    by blast
qed

theorem scanAndSave_one_of_three_failed:
  "fst (scanAndSave ''specs'' service0 world_three) = Inr ()
   \<and> length (catalog (fst (snd (scanAndSave ''specs'' service0 world_three)))) = 2
   \<and> (\<lambda>e. specId (uri e)) ` set (catalog (fst (snd (scanAndSave ''specs'' service0 world_three)))) =
       {''petstore'', ''orders''}
   \<and> ''broken'' \<notin> (\<lambda>e. specId (uri e)) ` set (catalog (fst (snd (scanAndSave ''specs'' service0 world_three))))
   \<and> specs (fst (snd (scanAndSave ''specs'' service0 world_three))) ''broken'' = specs service0 ''broken''
   \<and> specs service0 ''broken'' = None"
proof -
  let ?rs = "[scanned ''petstore'' petstore, scan_failed ''broken'', scanned ''orders'' orders]"
  let ?s' = "fst (snd (scanAndSave ''specs'' service0 world_three))"
  let ?w' = "snd (snd (scanAndSave ''specs'' service0 world_three))"
  have ok: "fst (scanAndSave ''specs'' service0 world_three) = Inr ()"
    by (simp add: world_three_def example_defs engine_defs Let_def)
  then have build: "scanAndSave ''specs'' service0 world_three = (Inr (), ?s', ?w')"
    by (metis prod.collapse)
  have h0: "in_flight world_three = []"
    by (simp add: world_three_def world0_def)
  have h1: "scan world_three ''specs'' = (?rs, None)"
    by (simp add: world_three_def world0_def)
  have h2: "length ?rs = 3" by simp
  have h3: "length (filter (\<lambda>r. error r \<noteq> None) ?rs) = 1"
    by (simp add: scanned_def scan_failed_def)
  have h4: "\<forall>r\<in>set ?rs. error r = None \<longrightarrow> (\<exists>e. make_entry (spec r) (scan_specId r) = Inr e)"
    by (simp add: scanned_def scan_failed_def make_entry_petstore make_entry_orders)
  have h5: "distinct (map scan_specId ?rs)"
    by (simp add: scanned_def scan_failed_def)
  have s0: "specs service0 ''broken'' = None"
    by (simp add: service0_def constructor_def Let_def)
  from scanAndSave_skips_scan_errors [where dir = "''specs''" and s = service0 and w = world_three
      and rs = ?rs and s' = ?s' and w' = ?w', THEN conjunct2, THEN conjunct2, THEN mp,
      OF conjI [OF h0 conjI [OF h1 conjI [OF h2 conjI [OF h3 conjI [OF h4 conjI [OF h5 build]]]]]]]
  have "length (catalog ?s') = 2
     \<and> (\<lambda>e. specId (uri e)) ` set (catalog ?s') = scan_specId ` set (filter (\<lambda>r. error r = None) ?rs)
     \<and> (\<forall>bad\<in>set ?rs. error bad \<noteq> None \<longrightarrow>
           scan_specId bad \<notin> (\<lambda>e. specId (uri e)) ` set (catalog ?s')
           \<and> specs ?s' (scan_specId bad) = specs service0 (scan_specId bad))" .
  then have "length (catalog ?s') = 2"
    and "(\<lambda>e. specId (uri e)) ` set (catalog ?s') = {''petstore'', ''orders''}"
    and "''broken'' \<notin> (\<lambda>e. specId (uri e)) ` set (catalog ?s')"
    and "specs ?s' ''broken'' = specs service0 ''broken''"
    by (simp_all add: scanned_def scan_failed_def)
  with ok s0 show ?thesis by simp
qed

subsection \<open>A failed initialisation\<close>

text \<open>
  When \<^verbatim>\<open>initialize\<close> throws, the error is an \<^verbatim>\<open>INIT_ERROR\<close> and the service is reset
  at that moment (\<open>initialize_failure\<close>), and a reset service answers from the empty
  state, except for a lookup by path and method under an inherited id
  (\<open>empty_state_queries\<close>).
\<close>

lemma build_race:
  "fst (initialize service0 world_race) =
     Inl (SpecServiceError ''Failed to initialize FileSystemSpecService'' INIT_ERROR
       (Some (SpecServiceError ''Failed to scan and persist specifications'' SCAN_ERROR
         (Some (SpecServiceError ''Failed to persist specification petstore'' PERSIST_ERROR
           (Some (ErrnoException ''EACCES'')))))))"
  "fst (snd (initialize service0 world_race)) = service0"
  "in_flight (snd (snd (initialize service0 world_race))) = [SaveLanding ''orders'' orders]"
  "clock (snd (snd (initialize service0 world_race))) = 0"
  by (simp_all add: world_race_def example_defs engine_defs Let_def)

text \<open>
  Claim C2, at a failing input. A fresh service initialises over two documents; the
  file of the first, \<^verbatim>\<open>petstore\<close>, cannot be written, and its write fails while the
  write of \<^verbatim>\<open>orders\<close> is under way. \<^verbatim>\<open>Promise.all\<close> rejects, the build fails, and
  \<^verbatim>\<open>initialize\<close> resets the state and throws \<^verbatim>\<open>INIT_ERROR\<close>: the SpecStore, the catalog
  and the cache are empty then, as the claim has it. But the save of \<^verbatim>\<open>orders\<close> is
  still in flight; when it settles it sets \<^verbatim>\<open>this.specs["orders"]\<close> and the cache, and
  from then on the service answers from a state that is not empty: the SpecStore and
  the cache hold \<^verbatim>\<open>orders\<close>, which the lookups find, and the catalog is empty. And on
  the reset state itself a lookup by path and method does not answer for the id
  \<^verbatim>\<open>constructor\<close>: it throws a \<^verbatim>\<open>TypeError\<close>.
\<close>

theorem initialize_failure_save_lands_after_reset:
  "fst (initialize service0 world_race) =
     Inl (SpecServiceError ''Failed to initialize FileSystemSpecService'' INIT_ERROR
       (Some (SpecServiceError ''Failed to scan and persist specifications'' SCAN_ERROR
         (Some (SpecServiceError ''Failed to persist specification petstore'' PERSIST_ERROR
           (Some (ErrnoException ''EACCES'')))))))
   \<and> refresh service0 world_race = initialize service0 world_race
   \<and> specs (fst (snd (initialize service0 world_race))) = Map.empty
   \<and> catalog (fst (snd (initialize service0 world_race))) = []
   \<and> entries (specCache (fst (snd (initialize service0 world_race)))) = []
   \<and> in_flight (snd (snd (initialize service0 world_race))) = [SaveLanding ''orders'' orders]
   \<and> specs (fst (settle (fst (snd (initialize service0 world_race)))
                         (snd (snd (initialize service0 world_race))))) = [''orders'' \<mapsto> orders]
   \<and> entries (specCache (fst (settle (fst (snd (initialize service0 world_race)))
                                     (snd (snd (initialize service0 world_race)))))) =
       [(''orders'', orders, 0)]
   \<and> catalog (fst (settle (fst (snd (initialize service0 world_race)))
                           (snd (snd (initialize service0 world_race))))) = []
   \<and> findOperationById (fst (settle (fst (snd (initialize service0 world_race)))
                                     (snd (snd (initialize service0 world_race)))))
        ''orders'' ''listOrders'' =
       Inr (Some \<lparr>lo_path = ''/orders'', lo_method = ''get'', lo_operation = listOrders,
                  lo_specId = ''orders'', lo_uri = ''apis://orders/operations/listOrders''\<rparr>)
   \<and> (\<forall>rt. findOperationByPathAndMethod rt (fst (snd (initialize service0 world_race)))
              ''constructor'' ''/pets'' ''get'' = Inl TypeError)"
  by (simp add: build_race settle_def refresh_def)
     (simp add: example_defs engine_defs findOperationById_def findOperationByPathAndMethod_def
        inherited_key_def operation_uri_def Let_def)

text \<open>
  A load can be in flight in the same way. A fresh service initialises on the files of
  a first build, of which the file of \<^verbatim>\<open>petstore\<close> has been lost: its load fails while
  the file of \<^verbatim>\<open>orders\<close> is being read. The scanner throws, \<^verbatim>\<open>initialize\<close> resets the
  state and throws; then the load of \<^verbatim>\<open>orders\<close> settles and puts the document into the
  cache that was cleared.
\<close>

lemma initialize_failure_load_lands_after_reset:
  "fst (initialize service0 world_lost) =
     Inl (SpecServiceError ''Failed to initialize FileSystemSpecService'' INIT_ERROR
       (Some (SpecServiceError ''Failed to scan and persist specifications'' SCAN_ERROR
         (Some (ErrnoException ''EACCES'')))))
   \<and> entries (specCache (fst (snd (initialize service0 world_lost)))) = []
   \<and> in_flight (snd (snd (initialize service0 world_lost))) = [LoadLanding ''orders'' orders]
   \<and> entries (specCache (fst (settle (fst (snd (initialize service0 world_lost)))
                                     (snd (snd (initialize service0 world_lost)))))) =
       [(''orders'', orders, 0)]
   \<and> specs (fst (settle (fst (snd (initialize service0 world_lost)))
                         (snd (snd (initialize service0 world_lost))))) = Map.empty"
  by (simp add: service0_def example_config_def world_lost_def world2_record
      constructor_def required_config_def new_cache_def
      initialize_def init_error_def ensureDirectories_def ensureDirectory_def
      loadExistingCatalog_def loadSpecCatalog_def catalog_file_def path_join_def
      petstore_entry_def orders_entry_def load_all_def read_file_def settle_order_def
      cache_get_def cache_set_def cache_clear_def spec_file_def settle_def
      scanAndSave_def scan_error_def resetState_def Let_def)

subsection \<open>Catalog and SpecStore after a successful initialisation\<close>

lemma initialize_shrunk:
  "fst (initialize service0 world_shrunk) = Inr ()"
  "catalog (fst (snd (initialize service0 world_shrunk))) = [petstore_entry]"
  "specs (fst (snd (initialize service0 world_shrunk))) = [''orders'' \<mapsto> orders, ''petstore'' \<mapsto> petstore]"
  by (simp_all add: service0_def example_config_def world_shrunk_def world2_record
      constructor_def required_config_def new_cache_def
      initialize_def init_error_def ensureDirectories_def ensureDirectory_def
      loadExistingCatalog_def loadSpecCatalog_def catalog_file_def path_join_def
      petstore_entry_def orders_entry_def load_all_def read_file_def settle_order_def
      save_all_def cache_get_def cache_set_def spec_file_def
      scanAndSave_def scanned_def petstore_def orders_def listPets_def createPet_def untitled_def listOrders_def
      make_entry_def structural_key_def
      extract_schemas_def saveSpec_def saveSpecCatalog_def scan_error_def resetState_def Let_def fun_upd_twist)

text \<open>
  Claim C3, as stated, at a concrete input. The files of a first build over
  \<^verbatim>\<open>petstore\<close> and \<^verbatim>\<open>orders\<close> are on disk; the source now holds \<^verbatim>\<open>petstore\<close> only. A
  fresh service initialises with success: the catalog has the one entry \<^verbatim>\<open>petstore\<close>,
  and the SpecStore has two documents, \<^verbatim>\<open>orders\<close> among them, loaded from the
  persisted catalog and never removed.
\<close>

theorem initialize_stale_document_counterexample:
  "fst (initialize service0 world_shrunk) = Inr ()
   \<and> catalog (fst (snd (initialize service0 world_shrunk))) = [petstore_entry]
   \<and> specId (uri petstore_entry) = ''petstore''
   \<and> length (catalog (fst (snd (initialize service0 world_shrunk)))) = 1
   \<and> dom (specs (fst (snd (initialize service0 world_shrunk)))) = {''petstore'', ''orders''}
   \<and> card (dom (specs (fst (snd (initialize service0 world_shrunk))))) = 2
   \<and> specs (fst (snd (initialize service0 world_shrunk))) ''orders'' = Some orders"
  by (auto simp add: initialize_shrunk petstore_entry_def)

text \<open>
  Claim C3, amended. After an \<^verbatim>\<open>initialize\<close> or \<^verbatim>\<open>refresh\<close> that succeeds, started while
  nothing is in flight:
  \<^item> every catalog entry's id has a document in the SpecStore;
  \<^item> the ids of the catalog are the ids of the scan results that the builder accepted;
  \<^item> the keys of the SpecStore are the ids of the catalog together with, when
    \<^verbatim>\<open>loadExistingCatalog\<close> succeeded, the keys held before the call and the ids of the
    persisted catalog, and with nothing else when it failed (the state is reset
    then, before the scan);
  \<^item> what is in flight afterwards leaves the SpecStore and the catalog as they are.

  So the SpecStore can hold keys without a catalog entry: when the persisted catalog
  was loaded, an id of it or of an earlier build that the scan does not yield any
  more is still a key of the SpecStore.
\<close>

theorem initialize_success_catalog_within_SpecStore:
  "in_flight w = [] \<and> (initialize s w = (Inr (), s', w') \<or> refresh s w = (Inr (), s', w')) \<longrightarrow>
     (\<forall>entry\<in>set (catalog s'). \<exists>d. specs s' (specId (uri entry)) = Some d)
     \<and> (\<exists>rs. scan w (folderPath s) = (rs, None)
           \<and> (\<lambda>entry. specId (uri entry)) ` set (catalog s') = scan_specId ` set (filter accepted rs))
     \<and> dom (specs s') =
         (\<lambda>entry. specId (uri entry)) ` set (catalog s')
         \<union> (if fst (loadExistingCatalog s w)
            then dom (specs s) \<union> (\<lambda>entry. specId (uri entry)) ` set (projr (fst (loadSpecCatalog s w)))
            else {})
     \<and> specs (fst (settle s' w')) = specs s'
     \<and> catalog (fst (settle s' w')) = catalog s'"
proof
  assume a: "in_flight w = [] \<and> (initialize s w = (Inr (), s', w') \<or> refresh s w = (Inr (), s', w'))"
  then have ok: "initialize s w = (Inr (), s', w')"
    by (auto simp: refresh_def split: if_splits)
  obtain loaded s1 w1 where le: "loadExistingCatalog s w = (loaded, s1, w1)"
    by (cases "loadExistingCatalog s w")
  from ok obtain u where ed: "ensureDirectories s w = Inr u"
    by (cases "ensureDirectories s w") (auto simp: initialize_def)
  obtain r s2 w2 where sc: "scanAndSave (folderPath s1) s1 w1 = (r, s2, w2)"
    by (cases "scanAndSave (folderPath s1) s1 w1")
  from ok ed le sc have b: "scanAndSave (folderPath s1) s1 w1 = (Inr (), s', w')"
    by (cases r) (auto simp: initialize_def)
  note l = loadExistingCatalog_specs [OF le]
  from scanAndSave_success [OF b] obtain rs where
    sn: "scan w1 (folderPath s1) = (rs, None)" and fl: "in_flight w' = in_flight w1"
    by auto
  from sn l(2,3) have sn': "scan w (folderPath s) = (rs, None)" by simp
  from scanAndSave_catalog_ids(1) [OF b sn]
  have ids: "(\<lambda>entry. specId (uri entry)) ` set (catalog s') = scan_specId ` set (filter accepted rs)" .
  from scanAndSave_catalog_ids(3) [OF b sn]
  have d: "dom (specs s') = (\<lambda>entry. specId (uri entry)) ` set (catalog s') \<union> dom (specs s1)"
    by auto
  then have c1: "\<forall>entry\<in>set (catalog s'). \<exists>d. specs s' (specId (uri entry)) = Some d"
    by (auto simp: dom_def)
  have "dom (specs s1) =
      (if loaded
       then dom (specs s) \<union> (\<lambda>entry. specId (uri entry)) ` set (projr (fst (loadSpecCatalog s w)))
       else {})"
    using l(1) by (auto split: if_splits)
  with d le have c3: "dom (specs s') =
         (\<lambda>entry. specId (uri entry)) ` set (catalog s')
         \<union> (if fst (loadExistingCatalog s w)
            then dom (specs s) \<union> (\<lambda>entry. specId (uri entry)) ` set (projr (fst (loadSpecCatalog s w)))
            else {})"
    by simp
  from a l(4) fl have "list_all is_load (in_flight w')" by simp
  from land_all_loads [OF this, of s' "w'\<lparr>in_flight := []\<rparr>"]
  have c4: "specs (fst (settle s' w')) = specs s'" "catalog (fst (settle s' w')) = catalog s'"
    by (simp_all add: settle_def)
  from c1 sn' ids c3 c4
  show "(\<forall>entry\<in>set (catalog s'). \<exists>d. specs s' (specId (uri entry)) = Some d)
     \<and> (\<exists>rs. scan w (folderPath s) = (rs, None)
           \<and> (\<lambda>entry. specId (uri entry)) ` set (catalog s') = scan_specId ` set (filter accepted rs))
     \<and> dom (specs s') =
         (\<lambda>entry. specId (uri entry)) ` set (catalog s')
         \<union> (if fst (loadExistingCatalog s w)
            then dom (specs s) \<union> (\<lambda>entry. specId (uri entry)) ` set (projr (fst (loadSpecCatalog s w)))
            else {})
     \<and> specs (fst (settle s' w')) = specs s'
     \<and> catalog (fst (settle s' w')) = catalog s'"
    by (intro conjI exI [of _ rs]) simp_all
qed

lemma load_shrunk:
  "fst (loadExistingCatalog service0 world_shrunk)"
  "fst (loadSpecCatalog service0 world_shrunk) = Inr [petstore_entry, orders_entry]"
  "in_flight world_shrunk = []"
  "specs service0 = Map.empty"
  by (simp_all add: service0_def example_config_def world_shrunk_def world2_record
      constructor_def required_config_def new_cache_def
      loadExistingCatalog_def loadSpecCatalog_def catalog_file_def path_join_def
      petstore_entry_def orders_entry_def load_all_def read_file_def settle_order_def
      cache_get_def cache_set_def spec_file_def Let_def)

theorem initialize_success_example:
  "fst (initialize service0 world_shrunk) = Inr ()
   \<and> in_flight world_shrunk = []
   \<and> (\<exists>d. specs (fst (snd (initialize service0 world_shrunk))) ''petstore'' = Some d)
   \<and> dom (specs (fst (snd (initialize service0 world_shrunk)))) =
       (\<lambda>entry. specId (uri entry)) ` set (catalog (fst (snd (initialize service0 world_shrunk))))
       \<union> (dom (specs service0) \<union> (\<lambda>entry. specId (uri entry)) ` set [petstore_entry, orders_entry])
   \<and> specs (fst (settle (fst (snd (initialize service0 world_shrunk)))
                         (snd (snd (initialize service0 world_shrunk))))) =
       specs (fst (snd (initialize service0 world_shrunk)))"
proof -
  let ?s' = "fst (snd (initialize service0 world_shrunk))"
  let ?w' = "snd (snd (initialize service0 world_shrunk))"
  have ok: "initialize service0 world_shrunk = (Inr (), ?s', ?w')"
    using initialize_shrunk(1) by (metis prod.collapse)
  note concl = initialize_success_catalog_within_SpecStore [of world_shrunk service0 ?s' ?w', THEN mp,
      OF conjI [OF load_shrunk(3) disjI1 [OF ok]]]
  have a: "\<forall>entry\<in>set (catalog ?s'). \<exists>d. specs ?s' (specId (uri entry)) = Some d"
    and d: "dom (specs ?s') =
         (\<lambda>entry. specId (uri entry)) ` set (catalog ?s')
         \<union> (if fst (loadExistingCatalog service0 world_shrunk)
            then dom (specs service0)
                 \<union> (\<lambda>entry. specId (uri entry)) ` set (projr (fst (loadSpecCatalog service0 world_shrunk)))
            else {})"
    and st: "specs (fst (settle ?s' ?w')) = specs ?s'"
    using concl [THEN conjunct1] concl [THEN conjunct2, THEN conjunct2, THEN conjunct1]
      concl [THEN conjunct2, THEN conjunct2, THEN conjunct2, THEN conjunct1]
    by - assumption+
  from a have "\<exists>d. specs ?s' ''petstore'' = Some d"
    by (simp add: initialize_shrunk(2) petstore_entry_def)
  moreover from d have "dom (specs ?s') =
       (\<lambda>entry. specId (uri entry)) ` set (catalog ?s')
       \<union> (dom (specs service0) \<union> (\<lambda>entry. specId (uri entry)) ` set [petstore_entry, orders_entry])"
    by (simp only: load_shrunk(1,2) if_True sum.sel)
  ultimately show ?thesis using initialize_shrunk(1) load_shrunk(3) st by simp
qed

subsection \<open>Schema search\<close>

text \<open>
  The candidates that \<^verbatim>\<open>searchSchemas\<close> hands to the library: the schema entries of
  the catalog entries in scope, in order, each with the id of its entry.
\<close>

lemma schema_candidates_eq:
  "schema_candidates es acc = acc @
     [\<lparr>name = name sc, se_description = se_description sc, ann_specId = specId (uri entry)\<rparr>.
        entry \<leftarrow> es, sc \<leftarrow> cat_schemas entry]"
  by (induction es arbitrary: acc) (auto simp: map_concat comp_def)

end
